theory Spec2Isabelle
  imports Complex_Main "HOL-Library.AList" "HOL-Library.Sublist"
begin

section \<open>Python values used by the quiz application\<close>

text \<open>
  The application is a Flask program (\<^verbatim>\<open>models.py\<close>, \<^verbatim>\<open>routes.py\<close>). Python strings
  are modelled as \<^typ>\<open>string\<close>, one \<^typ>\<open>char\<close> per code point; this covers the code
  points below 256. Python's \<^verbatim>\<open>None\<close> is \<^const>\<open>None\<close> of an option type, an
  unhandled exception is a value of \<open>py_error\<close>.
\<close>

datatype py_error = ValueError | ZeroDivisionError | AttributeError

text \<open>
  A Python \<^verbatim>\<open>dict\<close> keeps its keys in insertion order; assigning to a key that is
  present replaces the value in place. This is \<^const>\<open>AList.update\<close> on an association
  list. The answer map of a score has \<^verbatim>\<open>str\<close> keys and values that are a \<^verbatim>\<open>str\<close> or
  \<^verbatim>\<open>None\<close>.
\<close>

type_synonym answers_dict = "(string \<times> string option) list"

section \<open>The JSON text of an answer map\<close>

text \<open>
  \<^verbatim>\<open>json.dumps\<close> with its default arguments (\<^verbatim>\<open>ensure_ascii=True\<close>, separators
  \<^verbatim>\<open>', '\<close> and \<^verbatim>\<open>': '\<close>): inside a string literal the characters from space to
  \<^verbatim>\<open>~\<close> other than the quote and the backslash stand for themselves, seven
  characters have a two-character escape, every other one is written
  \<^verbatim>\<open>\u00xx\<close> with lowercase hexadecimal digits.
\<close>

definition hex_digit :: "nat \<Rightarrow> char" where
  "hex_digit n = (if n < 10 then char_of (48 + n) else char_of (87 + n))"

definition escape_char :: "char \<Rightarrow> string" where
  "escape_char c =
     (if c = CHR 0x22 then [CHR 0x5C, CHR 0x22]
      else if c = CHR 0x5C then [CHR 0x5C, CHR 0x5C]
      else if c = CHR 0x0A then [CHR 0x5C, CHR ''n'']
      else if c = CHR 0x0D then [CHR 0x5C, CHR ''r'']
      else if c = CHR 0x09 then [CHR 0x5C, CHR ''t'']
      else if c = CHR 0x0C then [CHR 0x5C, CHR ''f'']
      else if c = CHR 0x08 then [CHR 0x5C, CHR ''b'']
      else if (32::nat) \<le> of_char c \<and> (of_char c :: nat) \<le> 126 then [c]
      else [CHR 0x5C, CHR ''u'', CHR ''0'', CHR ''0'',
            hex_digit (of_char c div 16), hex_digit (of_char c mod 16)])"

definition encode_string :: "string \<Rightarrow> string" where
  "encode_string s = CHR 0x22 # concat (map escape_char s) @ [CHR 0x22]"

definition encode_value :: "string option \<Rightarrow> string" where
  "encode_value v = (case v of None \<Rightarrow> ''null'' | Some s \<Rightarrow> encode_string s)"

definition encode_member :: "string \<times> string option \<Rightarrow> string" where
  "encode_member kv = encode_string (fst kv) @ '': '' @ encode_value (snd kv)"

fun encode_members :: "answers_dict \<Rightarrow> string" where
  "encode_members [] = []"
| "encode_members [kv] = encode_member kv"
| "encode_members (kv # kvs) = encode_member kv @ '', '' @ encode_members kvs"

definition json_dumps :: "answers_dict \<Rightarrow> string" where
  "json_dumps d = ''{'' @ encode_members d @ ''}''"

text \<open>
  \<^verbatim>\<open>json.loads\<close>, for the texts that are one JSON object whose values are strings or
  \<^verbatim>\<open>null\<close>: whitespace is space, tab, line feed and carriage return; a string may
  not contain a raw control character; the escapes are those of JSON, with hexadecimal
  digits of either case; a key that occurs again replaces the earlier value; nothing but
  whitespace may follow the object. The result is \<^const>\<open>None\<close> for every other text:
  there \<^verbatim>\<open>json.loads\<close> either raises \<^verbatim>\<open>JSONDecodeError\<close> or returns a JSON value of
  another shape, and which of the two is not modelled.
\<close>

definition is_json_ws :: "char \<Rightarrow> bool" where
  "is_json_ws c \<longleftrightarrow> c = CHR 0x20 \<or> c = CHR 0x09 \<or> c = CHR 0x0A \<or> c = CHR 0x0D"

definition skip_ws :: "string \<Rightarrow> string" where
  "skip_ws s = dropWhile is_json_ws s"

definition hex_value :: "char \<Rightarrow> nat option" where
  "hex_value c =
     (let n = (of_char c :: nat) in
      if 48 \<le> n \<and> n \<le> 57 then Some (n - 48)
      else if 97 \<le> n \<and> n \<le> 102 then Some (n - 87)
      else if 65 \<le> n \<and> n \<le> 70 then Some (n - 55)
      else None)"

definition hex4 :: "char \<Rightarrow> char \<Rightarrow> char \<Rightarrow> char \<Rightarrow> nat option" where
  "hex4 a b c d =
     (case (hex_value a, hex_value b, hex_value c, hex_value d) of
        (Some w, Some x, Some y, Some z) \<Rightarrow> Some (((w * 16 + x) * 16 + y) * 16 + z)
      | _ \<Rightarrow> None)"

definition unescape :: "char \<Rightarrow> char option" where
  "unescape e =
     (if e = CHR 0x22 then Some (CHR 0x22)
      else if e = CHR 0x5C then Some (CHR 0x5C)
      else if e = CHR ''/'' then Some (CHR ''/'')
      else if e = CHR ''n'' then Some (CHR 0x0A)
      else if e = CHR ''r'' then Some (CHR 0x0D)
      else if e = CHR ''t'' then Some (CHR 0x09)
      else if e = CHR ''f'' then Some (CHR 0x0C)
      else if e = CHR ''b'' then Some (CHR 0x08)
      else None)"

definition push_char :: "char \<Rightarrow> (string \<times> string) option \<Rightarrow> (string \<times> string) option" where
  "push_char c r = (case r of None \<Rightarrow> None | Some (s, rest) \<Rightarrow> Some (c # s, rest))"

text \<open>
  \<open>scan_string\<close> reads a string literal from just after its opening quote and returns
  the decoded string with the text after the closing quote.
\<close>

fun scan_string :: "string \<Rightarrow> (string \<times> string) option" where
  "scan_string [] = None"
| "scan_string (c # cs) =
     (if c = CHR 0x22 then Some ([], cs)
      else if c = CHR 0x5C then
        (case cs of
           [] \<Rightarrow> None
         | e # r \<Rightarrow>
             if e = CHR ''u'' then
               (case r of
                  h1 # h2 # h3 # h4 # r' \<Rightarrow>
                    (case hex4 h1 h2 h3 h4 of
                       None \<Rightarrow> None
                     | Some n \<Rightarrow> if n < 256 then push_char (char_of n) (scan_string r') else None)
                | _ \<Rightarrow> None)
             else
               (case unescape e of
                  None \<Rightarrow> None
                | Some ch \<Rightarrow> push_char ch (scan_string r)))
      else if (of_char c :: nat) < 32 then None
      else push_char c (scan_string cs))"

fun parse_value :: "string \<Rightarrow> (string option \<times> string) option" where
  "parse_value [] = None"
| "parse_value (c # cs) =
     (if c = CHR 0x22 then
        (case scan_string cs of None \<Rightarrow> None | Some (s, rest) \<Rightarrow> Some (Some s, rest))
      else if take 4 (c # cs) = ''null'' then Some (None, drop 4 (c # cs))
      else None)"

lemma push_char_Some:
  "push_char c r = Some (s, rest) \<Longrightarrow> \<exists>s'. r = Some (s', rest) \<and> s = c # s'"
  by (auto simp: push_char_def split: option.splits)

lemma scan_string_shorter:
  "scan_string cs = Some (s, rest) \<Longrightarrow> length rest < length cs"
  apply (induction cs arbitrary: s rest rule: scan_string.induct)
   apply simp
  apply (simp split: if_splits option.splits list.splits)
  apply (fastforce dest!: push_char_Some)+
  done

lemma parse_value_shorter:
  "parse_value cs = Some (v, rest) \<Longrightarrow> length rest < length cs"
  by (cases cs) (auto split: if_splits option.splits dest: scan_string_shorter)

lemma skip_ws_le: "length (skip_ws s) \<le> length s"
  by (simp add: skip_ws_def length_dropWhile_le)

text \<open>
  \<open>parse_members\<close> reads the members of an object from the opening quote of a key up
  to and including the closing brace, adding each pair to the dictionary built so far.
\<close>

function parse_members :: "answers_dict \<Rightarrow> string \<Rightarrow> (answers_dict \<times> string) option" where
  "parse_members acc inp =
     (case inp of
        [] \<Rightarrow> None
      | q # cs \<Rightarrow>
          if q \<noteq> CHR 0x22 then None
          else
            (case scan_string cs of
               None \<Rightarrow> None
             | Some (k, r1) \<Rightarrow>
                 (case skip_ws r1 of
                    [] \<Rightarrow> None
                  | c # r2 \<Rightarrow>
                      if c \<noteq> CHR '':'' then None
                      else
                        (case parse_value (skip_ws r2) of
                           None \<Rightarrow> None
                         | Some (v, r3) \<Rightarrow>
                             (case skip_ws r3 of
                                [] \<Rightarrow> None
                              | d # r4 \<Rightarrow>
                                  if d = CHR '','' then
                                    parse_members (AList.update k v acc) (skip_ws r4)
                                  else if d = CHR ''}'' then Some (AList.update k v acc, r4)
                                  else None)))))"
  by pat_completeness auto

termination
proof (relation "measure (\<lambda>(acc, inp). length inp)", goal_cases)
  case 1
  then show ?case by simp
next
  case (2 acc inp q cs x k r1 c r2 y v r3 d r4)
  have "length r1 < length cs"
    using 2 scan_string_shorter by metis
  moreover have "length r2 < length (skip_ws r1)"
    using 2 by simp
  moreover have "length r3 < length (skip_ws r2)"
    using 2 parse_value_shorter by metis
  moreover have "length r4 < length (skip_ws r3)"
    using 2 by simp
  ultimately have "length (skip_ws r4) < length cs"
    using skip_ws_le [of r1] skip_ws_le [of r2] skip_ws_le [of r3] skip_ws_le [of r4]
    by linarith
  with 2 show ?case by simp
qed

declare parse_members.simps [simp del]

definition json_loads :: "string \<Rightarrow> answers_dict option" where
  "json_loads s =
     (case skip_ws s of
        [] \<Rightarrow> None
      | b # r \<Rightarrow>
          if b \<noteq> CHR ''{'' then None
          else
            (case skip_ws r of
               [] \<Rightarrow> None
             | c # r' \<Rightarrow>
                 if c = CHR ''}'' then (if skip_ws r' = [] then Some [] else None)
                 else
                   (case parse_members [] (c # r') of
                      None \<Rightarrow> None
                    | Some (d, rest) \<Rightarrow> if skip_ws rest = [] then Some d else None)))"

subsection \<open>Decoding what was encoded\<close>

lemma hex_value_hex_digit: "k < 16 \<Longrightarrow> hex_value (hex_digit k) = Some k"
  by (auto simp: hex_value_def hex_digit_def Let_def)

lemma hex4_of_char:
  "hex4 (CHR ''0'') (CHR ''0'') (hex_digit (of_char c div 16)) (hex_digit (of_char c mod 16))
     = Some (of_char c)"
proof -
  have "(of_char c :: nat) < 256" by simp
  then have d: "(of_char c :: nat) div 16 < 16" by arith
  have m: "(of_char c :: nat) mod 16 < 16" by simp
  have z: "hex_value (CHR ''0'') = Some 0" by (simp add: hex_value_def)
  show ?thesis
    by (simp add: hex4_def z hex_value_hex_digit [OF d] hex_value_hex_digit [OF m])
qed

lemma scan_string_escape_char:
  "scan_string (escape_char c @ rest) = push_char c (scan_string rest)"
proof -
  have u: "scan_string (CHR 0x5C # CHR ''u'' # CHR ''0'' # CHR ''0'' #
      hex_digit (of_char c div 16) # hex_digit (of_char c mod 16) # rest)
      = push_char c (scan_string rest)"
    by (simp add: hex4_of_char)
  show ?thesis
    unfolding escape_char_def
    apply (simp only: u append_Cons append_Nil split: if_splits)
    apply (auto simp: unescape_def)
    done
qed

lemma scan_string_encoded:
  "scan_string (concat (map escape_char s) @ CHR 0x22 # rest) = Some (s, rest)"
  by (induction s) (simp_all add: scan_string_escape_char push_char_def)

lemma parse_value_encoded:
  "parse_value (encode_value v @ rest) = Some (v, rest)"
  by (cases v) (simp_all add: encode_value_def encode_string_def scan_string_encoded)


lemma skip_ws_Cons:
  "skip_ws (c # s) = (if is_json_ws c then skip_ws s else c # s)"
  by (simp add: skip_ws_def)

lemma encode_value_Cons:
  "\<exists>c t. encode_value v = c # t \<and> \<not> is_json_ws c"
  by (cases v) (simp_all add: encode_value_def encode_string_def is_json_ws_def)

lemma skip_ws_encode_value [simp]:
  "skip_ws (encode_value v @ rest) = encode_value v @ rest"
  using encode_value_Cons [of v] by (auto simp: skip_ws_Cons)

lemma parse_member_encoded:
  assumes "\<not> is_json_ws d"
  shows "parse_members acc (encode_member kv @ d # r4) =
     (if d = CHR '','' then parse_members (AList.update (fst kv) (snd kv) acc) (skip_ws r4)
      else if d = CHR ''}'' then Some (AList.update (fst kv) (snd kv) acc, r4)
      else None)"
  using assms
  by (subst parse_members.simps)
    (simp add: encode_member_def encode_string_def scan_string_encoded skip_ws_Cons
      is_json_ws_def parse_value_encoded)

lemma encode_members_Cons:
  "kvs \<noteq> [] \<Longrightarrow> \<exists>t. encode_members kvs = CHR 0x22 # t"
  by (induction kvs rule: encode_members.induct)
    (simp_all add: encode_member_def encode_string_def)

lemma parse_members_encoded:
  "kvs \<noteq> [] \<Longrightarrow>
   parse_members acc (encode_members kvs @ CHR ''}'' # rest) =
     Some (fold (\<lambda>kv. AList.update (fst kv) (snd kv)) kvs acc, rest)"
proof (induction kvs arbitrary: acc rule: encode_members.induct)
  case 1
  then show ?case by simp
next
  case (2 kv)
  show ?case
    by (simp add: parse_member_encoded is_json_ws_def)
next
  case (3 kv kv' kvs)
  obtain t where t: "encode_members (kv' # kvs) = CHR 0x22 # t"
    using encode_members_Cons [of "kv' # kvs"] by auto
  have "parse_members acc (encode_members (kv # kv' # kvs) @ CHR ''}'' # rest) =
      parse_members (AList.update (fst kv) (snd kv) acc)
        (skip_ws (CHR 0x20 # encode_members (kv' # kvs) @ CHR ''}'' # rest))"
    using parse_member_encoded [of "CHR '',''" acc kv
        "CHR 0x20 # encode_members (kv' # kvs) @ CHR ''}'' # rest"]
    by (simp add: is_json_ws_def)
  also have "skip_ws (CHR 0x20 # encode_members (kv' # kvs) @ CHR ''}'' # rest) =
      encode_members (kv' # kvs) @ CHR ''}'' # rest"
    by (simp add: t skip_ws_Cons is_json_ws_def)
  finally show ?case
    using 3 by simp
qed

lemma update_fresh:
  "k \<notin> fst ` set al \<Longrightarrow> AList.update k v al = al @ [(k, v)]"
  by (induction al) auto

lemma fold_update_distinct:
  "distinct (map fst (acc @ kvs)) \<Longrightarrow>
   fold (\<lambda>kv. AList.update (fst kv) (snd kv)) kvs acc = acc @ kvs"
proof (induction kvs arbitrary: acc)
  case Nil
  then show ?case by simp
next
  case (Cons kv kvs)
  have fresh: "fst kv \<notin> fst ` set acc"
    using Cons.prems by auto
  have "distinct (map fst ((acc @ [kv]) @ kvs))"
    using Cons.prems by simp
  from Cons.IH [OF this] show ?case
    by (simp add: update_fresh [OF fresh])
qed

lemma loads_dumps:
  "distinct (map fst d) \<Longrightarrow> json_loads (json_dumps d) = Some d"
proof (cases d)
  case Nil
  then show ?thesis
    by (simp add: json_loads_def json_dumps_def skip_ws_Cons is_json_ws_def skip_ws_def)
next
  case (Cons kv kvs)
  assume dist: "distinct (map fst d)"
  obtain t where t: "encode_members d = CHR 0x22 # t"
    using encode_members_Cons [of d] Cons by auto
  have p: "parse_members [] (encode_members d @ ''}'') = Some (d, [])"
    using parse_members_encoded [of d "[]" "[]"] fold_update_distinct [of "[]" d] dist Cons
    by simp
  have "json_loads (json_dumps d) =
      (case parse_members [] (encode_members d @ ''}'') of
         None \<Rightarrow> None
       | Some (d', rest) \<Rightarrow> if skip_ws rest = [] then Some d' else None)"
    by (simp add: json_loads_def json_dumps_def skip_ws_Cons is_json_ws_def t)
  then show ?thesis
    by (simp add: p skip_ws_def)
qed

section \<open>The Score model\<close>

text \<open>
  \<^verbatim>\<open>class Score\<close> of \<^verbatim>\<open>models.py\<close>. The primary key \<^verbatim>\<open>id\<close> of an object is
  \<^verbatim>\<open>None\<close> until the object has been written to the store. The column \<^verbatim>\<open>answers\<close>
  is nullable text; the timestamp, which no function below reads, is left out.
\<close>

record score =
  score_id :: "int option"
  score_quiz_id :: int
  score_user_id :: int
  total_scored :: int
  total_questions :: int
  answers :: "string option"

text \<open>
  \<^verbatim>\<open>get_answers\<close>: \<^verbatim>\<open>not self.answers\<close> holds for \<^verbatim>\<open>None\<close> and for the empty string.
\<close>

definition get_answers :: "score \<Rightarrow> answers_dict option" where
  "get_answers sc =
     (case answers sc of
        None \<Rightarrow> Some []
      | Some txt \<Rightarrow> if txt = [] then Some [] else json_loads txt)"

definition set_answers :: "answers_dict \<Rightarrow> score \<Rightarrow> score" where
  "set_answers answers_dict sc = sc\<lparr>answers := Some (json_dumps answers_dict)\<rparr>"

section \<open>Conversions between integers and strings\<close>

text \<open>
  \<^verbatim>\<open>str(n)\<close> of an integer is its decimal numeral, with a minus sign when negative.
\<close>

definition digit_char :: "nat \<Rightarrow> char" where
  "digit_char n = ''0123456789'' ! n"

function nat_digits :: "nat \<Rightarrow> string" where
  "nat_digits n =
     (if n < 10 then [digit_char n] else nat_digits (n div 10) @ [digit_char (n mod 10)])"
  by pat_completeness auto

termination
  by (relation "measure (\<lambda>n. n)") auto

declare nat_digits.simps [simp del]

definition py_str :: "int \<Rightarrow> string" where
  "py_str i = (if i < 0 then CHR ''-'' # nat_digits (nat (- i)) else nat_digits (nat i))"

text \<open>
  \<^verbatim>\<open>int(s)\<close> of a string: whitespace around the numeral is dropped (over the code
  points below 256 these are 9 to 13, 32, 133 and 160), then comes an optional sign and a
  non-empty run of decimal digits in which single underscores may separate digits.
  Anything else raises \<^verbatim>\<open>ValueError\<close>. (CPython also raises \<^verbatim>\<open>ValueError\<close> for a
  numeral of more than 4300 digits; that limit is not part of the model.)
\<close>

definition is_py_space :: "char \<Rightarrow> bool" where
  "is_py_space c \<longleftrightarrow> (of_char c :: nat) \<in> {9, 10, 11, 12, 13, 32, 133, 160}"

definition is_digit :: "char \<Rightarrow> bool" where
  "is_digit c \<longleftrightarrow> (48::nat) \<le> of_char c \<and> (of_char c :: nat) \<le> 57"

definition digit_value :: "char \<Rightarrow> int" where
  "digit_value c = of_char c - 48"

fun scan_digits :: "int \<Rightarrow> string \<Rightarrow> int option" where
  "scan_digits acc [] = Some acc"
| "scan_digits acc [c] = (if is_digit c then Some (acc * 10 + digit_value c) else None)"
| "scan_digits acc (c # d # cs) =
     (if is_digit c then scan_digits (acc * 10 + digit_value c) (d # cs)
      else if c = CHR ''_'' \<and> is_digit d then scan_digits acc (d # cs)
      else None)"

definition strip :: "string \<Rightarrow> string" where
  "strip s = rev (dropWhile is_py_space (rev (dropWhile is_py_space s)))"

definition py_int :: "string \<Rightarrow> py_error + int" where
  "py_int s =
     (case strip s of
        [] \<Rightarrow> Inl ValueError
      | c # r \<Rightarrow>
          (let neg = (c = CHR ''-'');
               body = (if c = CHR ''-'' \<or> c = CHR ''+'' then r else c # r)
           in case body of
                [] \<Rightarrow> Inl ValueError
              | b # _ \<Rightarrow>
                  if is_digit b then
                    (case scan_digits 0 body of
                       None \<Rightarrow> Inl ValueError
                     | Some n \<Rightarrow> Inr (if neg then - n else n))
                  else Inl ValueError))"

subsection \<open>Distinct integers have distinct numerals\<close>

definition digits_to_nat :: "string \<Rightarrow> nat" where
  "digits_to_nat s = foldl (\<lambda>a c. a * 10 + nat (digit_value c)) 0 s"

lemma digit_cases: "d < 10 \<Longrightarrow> d \<in> {0, 1, 2, 3, 4, 5, 6, 7, 8, 9::nat}"
  by auto

lemma digit_value_digit_char: "d < 10 \<Longrightarrow> digit_value (digit_char d) = int d"
  by (drule digit_cases) (auto simp: digit_char_def digit_value_def)

lemma digit_char_not_minus: "d < 10 \<Longrightarrow> digit_char d \<noteq> CHR ''-''"
  by (drule digit_cases) (auto simp: digit_char_def)

lemma digits_to_nat_nat_digits: "digits_to_nat (nat_digits n) = n"
proof (induction n rule: nat_digits.induct)
  case (1 n)
  show ?case
  proof (cases "n < 10")
    case True
    then show ?thesis
      by (subst nat_digits.simps) (simp add: digits_to_nat_def digit_value_digit_char)
  next
    case False
    have "digits_to_nat (nat_digits n) =
        digits_to_nat (nat_digits (n div 10)) * 10 + nat (digit_value (digit_char (n mod 10)))"
      using False by (subst nat_digits.simps) (simp add: digits_to_nat_def)
    also have "\<dots> = n div 10 * 10 + n mod 10"
      using 1 [OF False] by (simp add: digit_value_digit_char)
    finally show ?thesis by simp
  qed
qed

lemma nat_digits_inj: "nat_digits m = nat_digits n \<Longrightarrow> m = n"
  by (metis digits_to_nat_nat_digits)

lemma nat_digits_no_minus: "CHR ''-'' \<notin> set (nat_digits n)"
proof (induction n rule: nat_digits.induct)
  case (1 n)
  show ?case
  proof (cases "n < 10")
    case True
    then show ?thesis
      using digit_char_not_minus [of n] by (subst nat_digits.simps) auto
  next
    case False
    have "n mod 10 < 10" by simp
    then have "digit_char (n mod 10) \<noteq> CHR ''-''"
      by (rule digit_char_not_minus)
    with 1 [OF False] False show ?thesis
      by (subst nat_digits.simps) auto
  qed
qed

lemma py_str_inj: "py_str i = py_str j \<Longrightarrow> i = j"
proof -
  assume eq: "py_str i = py_str j"
  have hd: "\<And>n t. nat_digits n \<noteq> CHR ''-'' # t"
    using nat_digits_no_minus by (metis list.set_intros(1))
  then have hd': "\<And>n t. CHR ''-'' # t \<noteq> nat_digits n"
    by metis
  show ?thesis
  proof (cases "i < 0")
    case True
    with eq hd hd' have j: "j < 0"
      by (auto simp: py_str_def split: if_splits)
    with True eq have "nat (- i) = nat (- j)"
      by (auto simp: py_str_def dest: nat_digits_inj)
    with True j show ?thesis by simp
  next
    case False
    with eq hd hd' have j: "\<not> j < 0"
      by (auto simp: py_str_def split: if_splits)
    with False eq have "nat i = nat j"
      by (auto simp: py_str_def dest: nat_digits_inj)
    with False j show ?thesis by simp
  qed
qed

lemma inj_py_str: "inj py_str"
  by (rule injI) (rule py_str_inj)

section \<open>The store\<close>

text \<open>
  The tables of \<^verbatim>\<open>models.py\<close> that the attempt handler and the statistics read, each
  as the list of its rows; columns that no function below reads (titles, texts,
  creation times) are left out. A date is the number of its day.
\<close>

record subject =
  subject_id :: int
  subject_name :: string

record chapter_row =
  chapter_id :: int
  chapter_subject_id :: int

record quiz =
  quiz_id :: int
  quiz_chapter_id :: int
  date_of_quiz :: int

record question =
  question_id :: int
  question_quiz_id :: int
  correct_option :: int

record db =
  subjects :: "subject list"
  chapters :: "chapter_row list"
  quizzes :: "quiz list"
  questions :: "question list"
  scores :: "score list"

text \<open>
  \<^verbatim>\<open>db.session.add(score); db.session.commit()\<close> inserts the row, and the store gives
  it a primary key that no row of the table has (one more than the largest key, as
  SQLite does for an integer primary key).
\<close>

definition fresh_id :: "db \<Rightarrow> int" where
  "fresh_id s = fold max (map (\<lambda>sc. case score_id sc of None \<Rightarrow> 0 | Some i \<Rightarrow> i) (scores s)) 0 + 1"

definition add_commit :: "score \<Rightarrow> db \<Rightarrow> score \<times> db" where
  "add_commit sc s =
     (let sc' = sc\<lparr>score_id := Some (fresh_id s)\<rparr>
      in (sc', s\<lparr>scores := scores s @ [sc']\<rparr>))"

text \<open>
  The three queries of the attempt handler: \<^verbatim>\<open>Quiz.query.get\<close> by primary key,
  \<^verbatim>\<open>Score.query.filter_by(quiz_id=..., user_id=...).first()\<close>, and
  \<^verbatim>\<open>Question.query.filter_by(quiz_id=...).all()\<close>.
\<close>

definition quiz_get :: "int \<Rightarrow> db \<Rightarrow> quiz option" where
  "quiz_get qid s = find (\<lambda>q. quiz_id q = qid) (quizzes s)"

definition score_first :: "int \<Rightarrow> int \<Rightarrow> db \<Rightarrow> score option" where
  "score_first qid uid s =
     find (\<lambda>sc. score_quiz_id sc = qid \<and> score_user_id sc = uid) (scores s)"

definition questions_of :: "int \<Rightarrow> db \<Rightarrow> question list" where
  "questions_of qid s = filter (\<lambda>q. question_quiz_id q = qid) (questions s)"

section \<open>Attempting a quiz\<close>

text \<open>
  The request as \<^verbatim>\<open>attempt_quiz\<close> of \<^verbatim>\<open>routes.py\<close> reads it: the method, whether
  the form validates (\<^verbatim>\<open>QuizAttemptForm\<close> has no field but the submit button, so this
  is the check of the CSRF token), and \<^verbatim>\<open>request.form.get\<close>. What the handler returns
  is one of six responses.
\<close>

datatype http_method = GET | POST

record request =
  req_method :: http_method
  req_validates :: bool
  req_form :: "string \<Rightarrow> string option"

datatype response =
    NotFound
  | NotAvailable
  | AlreadyAttempted "int option"
  | NoQuestions
  | ShowForm
  | Submitted "int option"

definition validate_on_submit :: "request \<Rightarrow> bool" where
  "validate_on_submit req \<longleftrightarrow> req_method req = POST \<and> req_validates req"

text \<open>
  The test \<^verbatim>\<open>user_answer and int(user_answer) == question.correct_option\<close>: a value
  that is \<^verbatim>\<open>None\<close> or the empty string is false and \<^verbatim>\<open>int\<close> is not called; otherwise
  \<^verbatim>\<open>int\<close> is called and may raise.
\<close>

definition answer_matches :: "string option \<Rightarrow> int \<Rightarrow> py_error + bool" where
  "answer_matches user_answer correct =
     (case user_answer of
        None \<Rightarrow> Inr False
      | Some a \<Rightarrow>
          if a = [] then Inr False
          else (case py_int a of Inl e \<Rightarrow> Inl e | Inr n \<Rightarrow> Inr (n = correct)))"

text \<open>The loop over the questions (lines 491 to 498), with its two accumulators.\<close>

fun grade ::
  "(string \<Rightarrow> string option) \<Rightarrow> question list \<Rightarrow> int \<Rightarrow> answers_dict
     \<Rightarrow> py_error + (int \<times> answers_dict)" where
  "grade form [] scored user_answers = Inr (scored, user_answers)"
| "grade form (q # qs) scored user_answers =
     (let key = py_str (question_id q);
          user_answer = form (''question_'' @ key)
      in case answer_matches user_answer (correct_option q) of
           Inl e \<Rightarrow> Inl e
         | Inr hit \<Rightarrow>
             grade form qs (if hit then scored + 1 else scored)
               (AList.update key user_answer user_answers))"

text \<open>
  The handler up to the point where it writes (lines 465 to 507): it either returns a
  response without writing, or has built the \<^verbatim>\<open>Score\<close> object that it is about to add.
\<close>

definition attempt_quiz_prepare ::
  "int \<Rightarrow> int \<Rightarrow> int \<Rightarrow> request \<Rightarrow> db \<Rightarrow> py_error + (response + score)" where
  "attempt_quiz_prepare today current_user_id qid req s =
     (case quiz_get qid s of
        None \<Rightarrow> Inr (Inl NotFound)
      | Some quiz \<Rightarrow>
          if date_of_quiz quiz > today then Inr (Inl NotAvailable)
          else
            (case score_first qid current_user_id s of
               Some existing_score \<Rightarrow> Inr (Inl (AlreadyAttempted (score_id existing_score)))
             | None \<Rightarrow>
                 (let qs = questions_of qid s in
                  if qs = [] then Inr (Inl NoQuestions)
                  else if validate_on_submit req then
                    (case grade (req_form req) qs 0 [] of
                       Inl e \<Rightarrow> Inl e
                     | Inr (scored, user_answers) \<Rightarrow>
                         Inr (Inr (set_answers user_answers
                           \<lparr>score_id = None, score_quiz_id = qid,
                              score_user_id = current_user_id, total_scored = scored,
                              total_questions = int (length qs), answers = None\<rparr>)))
                  else Inr (Inl ShowForm))))"

text \<open>
  The whole handler, run without interruption: what it prepared, followed at once by the
  insert (lines 508 to 512). An exception leaves the store as it was.
\<close>

definition attempt_quiz ::
  "int \<Rightarrow> int \<Rightarrow> int \<Rightarrow> request \<Rightarrow> db \<Rightarrow> py_error + (response \<times> db)" where
  "attempt_quiz today current_user_id qid req s =
     (case attempt_quiz_prepare today current_user_id qid req s of
        Inl e \<Rightarrow> Inl e
      | Inr (Inl resp) \<Rightarrow> Inr (resp, s)
      | Inr (Inr sc) \<Rightarrow>
          (case add_commit sc s of (sc', s') \<Rightarrow> Inr (Submitted (score_id sc'), s')))"

section \<open>What the grading loop computes\<close>

definition answer_entry :: "(string \<Rightarrow> string option) \<Rightarrow> question \<Rightarrow> string \<times> string option" where
  "answer_entry form q =
     (py_str (question_id q), form (''question_'' @ py_str (question_id q)))"

lemma grade_result:
  "grade form qs scored ua = Inr (scored', ua') \<Longrightarrow>
   scored \<le> scored' \<and> scored' \<le> scored + int (length qs)
   \<and> ua' = fold (\<lambda>kv. AList.update (fst kv) (snd kv)) (map (answer_entry form) qs) ua"
proof (induction qs arbitrary: scored ua)
  case Nil
  then show ?case by simp
next
  case (Cons q qs)
  from Cons.prems obtain hit where
    hit: "answer_matches (form (''question_'' @ py_str (question_id q))) (correct_option q) = Inr hit"
    and rest: "grade form qs (if hit then scored + 1 else scored)
      (AList.update (py_str (question_id q)) (form (''question_'' @ py_str (question_id q))) ua)
      = Inr (scored', ua')"
    by (auto simp: Let_def split: sum.splits)
  from Cons.IH [OF rest] show ?case
    by (auto simp: answer_entry_def split: if_splits)
qed

lemma answer_entries_distinct:
  assumes "distinct (map question_id qs)"
  shows "distinct (map fst (map (answer_entry form) qs))"
proof -
  have "inj_on py_str (set (map question_id qs))"
    by (rule inj_on_subset [OF inj_py_str]) simp
  with assms have "distinct (map py_str (map question_id qs))"
    by (metis distinct_map)
  moreover have "map fst (map (answer_entry form) qs) = map py_str (map question_id qs)"
    by (simp add: answer_entry_def comp_def)
  ultimately show ?thesis
    by metis
qed

lemma grade_answers:
  assumes "grade form qs 0 [] = Inr (scored, ua)" and "distinct (map question_id qs)"
  shows "ua = map (answer_entry form) qs"
proof -
  have "ua = fold (\<lambda>kv. AList.update (fst kv) (snd kv)) (map (answer_entry form) qs) []"
    using grade_result [OF assms(1)] by simp
  also have "\<dots> = [] @ map (answer_entry form) qs"
    using answer_entries_distinct [OF assms(2), of form]
    by (intro fold_update_distinct) simp
  finally show ?thesis by simp
qed

lemma attempt_quiz_Submitted:
  assumes "attempt_quiz today uid qid req s = Inr (Submitted i, s')"
  shows "\<exists>scored ua.
      grade (req_form req) (questions_of qid s) 0 [] = Inr (scored, ua)
      \<and> score_first qid uid s = None
      \<and> i = Some (fresh_id s)
      \<and> s' = s\<lparr>scores := scores s @
           [\<lparr>score_id = Some (fresh_id s), score_quiz_id = qid, score_user_id = uid,
              total_scored = scored, total_questions = int (length (questions_of qid s)),
              answers = Some (json_dumps ua)\<rparr>]\<rparr>"
  using assms
  by (auto simp: attempt_quiz_def attempt_quiz_prepare_def add_commit_def Let_def
      set_answers_def split: option.splits sum.splits prod.splits if_splits)

section \<open>Sequences and interleavings of attempts\<close>

text \<open>
  One call of the handler: the day, the logged-in user, the quiz of the URL and the
  request.
\<close>

record attempt_call =
  call_today :: int
  call_user :: int
  call_quiz :: int
  call_request :: request

definition handle :: "attempt_call \<Rightarrow> db \<Rightarrow> py_error + (response \<times> db)" where
  "handle c s = attempt_quiz (call_today c) (call_user c) (call_quiz c) (call_request c) s"

text \<open>
  Calls that are handled one after another: each leaves the store for the next, an
  exception leaves it unchanged.
\<close>

definition store_after :: "attempt_call \<Rightarrow> db \<Rightarrow> db" where
  "store_after c s = (case handle c s of Inl e \<Rightarrow> s | Inr (resp, s') \<Rightarrow> s')"

definition run_attempts :: "attempt_call list \<Rightarrow> db \<Rightarrow> db" where
  "run_attempts cs s = fold store_after cs s"

definition one_score_per_pair :: "db \<Rightarrow> bool" where
  "one_score_per_pair s \<longleftrightarrow> distinct (map (\<lambda>sc. (score_user_id sc, score_quiz_id sc)) (scores s))"

text \<open>
  Calls that overlap. The handler reads the store while it prepares (the three queries of
  lines 465 to 479) and writes it when it commits (line 509); nothing in \<^verbatim>\<open>routes.py\<close>
  or \<^verbatim>\<open>models.py\<close> ties the two together: there is no lock, and the \<^verbatim>\<open>Score\<close> table
  has no uniqueness constraint on \<^verbatim>\<open>(user_id, quiz_id)\<close>. A handler in flight is
  therefore in one of three states, and a schedule names the handler that takes the next
  step.
\<close>

datatype handler_state = Ready | Prepared score | Finished "py_error + response"

definition handler_step ::
  "attempt_call \<times> handler_state \<Rightarrow> db \<Rightarrow> (attempt_call \<times> handler_state) \<times> db" where
  "handler_step h s =
     (case snd h of
        Ready \<Rightarrow>
          (case attempt_quiz_prepare (call_today (fst h)) (call_user (fst h))
                  (call_quiz (fst h)) (call_request (fst h)) s of
             Inl e \<Rightarrow> ((fst h, Finished (Inl e)), s)
           | Inr (Inl resp) \<Rightarrow> ((fst h, Finished (Inr resp)), s)
           | Inr (Inr sc) \<Rightarrow> ((fst h, Prepared sc), s))
      | Prepared sc \<Rightarrow>
          (case add_commit sc s of
             (sc', s') \<Rightarrow> ((fst h, Finished (Inr (Submitted (score_id sc')))), s'))
      | Finished r \<Rightarrow> (h, s))"

fun run_schedule ::
  "nat list \<Rightarrow> (attempt_call \<times> handler_state) list \<times> db
     \<Rightarrow> (attempt_call \<times> handler_state) list \<times> db" where
  "run_schedule [] conf = conf"
| "run_schedule (i # sched) (hs, s) =
     (if i < length hs then
        (case handler_step (hs ! i) s of (h', s') \<Rightarrow> run_schedule sched (hs[i := h'], s'))
      else run_schedule sched (hs, s))"

text \<open>A handler that takes both its steps without another in between is \<open>handle\<close>.\<close>

lemma handler_alone:
  "run_schedule [0, 0] ([(c, Ready)], s) =
     (case handle c s of
        Inl e \<Rightarrow> ([(c, Finished (Inl e))], s)
      | Inr (resp, s') \<Rightarrow> ([(c, Finished (Inr resp))], s'))"
  by (auto simp: handler_step_def handle_def attempt_quiz_def
      split: sum.splits prod.splits handler_state.splits)

subsection \<open>One call after another keeps one Score per pair\<close>

lemma find_append:
  "find P (xs @ ys) = (case find P xs of None \<Rightarrow> find P ys | Some x \<Rightarrow> Some x)"
  by (induction xs) auto

lemma handle_cases:
  assumes "handle c s = Inr (resp, s')"
  shows "s' = s \<or>
     (\<exists>sc. s' = s\<lparr>scores := scores s @ [sc]\<rparr>
        \<and> score_user_id sc = call_user c \<and> score_quiz_id sc = call_quiz c
        \<and> score_first (call_quiz c) (call_user c) s = None)"
  using assms
  by (auto simp: handle_def attempt_quiz_def attempt_quiz_prepare_def add_commit_def Let_def
      set_answers_def split: option.splits sum.splits prod.splits if_splits)

lemma score_first_None:
  "score_first qid uid s = None \<Longrightarrow>
   (uid, qid) \<notin> set (map (\<lambda>sc. (score_user_id sc, score_quiz_id sc)) (scores s))"
  by (auto simp: score_first_def find_None_iff)

lemma store_after_cases:
  "store_after c s = s \<or>
     (\<exists>sc. store_after c s = s\<lparr>scores := scores s @ [sc]\<rparr>
        \<and> (score_user_id sc, score_quiz_id sc)
            \<notin> set (map (\<lambda>sc. (score_user_id sc, score_quiz_id sc)) (scores s)))"
proof (cases "handle c s")
  case (Inl e)
  then show ?thesis by (simp add: store_after_def)
next
  case (Inr p)
  obtain resp s' where p: "p = (resp, s')" by (cases p)
  have after: "store_after c s = s'"
    using Inr p by (simp add: store_after_def)
  from handle_cases [of c s resp s'] Inr p consider
    (same) "s' = s"
    | (new) sc where "s' = s\<lparr>scores := scores s @ [sc]\<rparr>"
        "score_user_id sc = call_user c" "score_quiz_id sc = call_quiz c"
        "score_first (call_quiz c) (call_user c) s = None"
    by auto
  then show ?thesis
  proof cases
    case same
    with after show ?thesis by simp
  next
    case new
    from score_first_None [OF new(4)] new(2,3) have
      "(score_user_id sc, score_quiz_id sc)
         \<notin> set (map (\<lambda>sc. (score_user_id sc, score_quiz_id sc)) (scores s))"
      by simp
    with after new(1) show ?thesis by blast
  qed
qed

lemma store_after_invariant:
  "one_score_per_pair s \<Longrightarrow> one_score_per_pair (store_after c s)"
  using store_after_cases [of c s] by (auto simp: one_score_per_pair_def)

lemma run_attempts_invariant:
  "one_score_per_pair s \<Longrightarrow> one_score_per_pair (run_attempts cs s)"
  unfolding run_attempts_def
  by (induction cs arbitrary: s) (simp_all add: store_after_invariant)

lemma store_after_keeps:
  "quizzes (store_after c s) = quizzes s \<and> (\<exists>more. scores (store_after c s) = scores s @ more)"
  using store_after_cases [of c s] by auto

lemma run_attempts_keeps:
  "quizzes (run_attempts cs s) = quizzes s \<and> (\<exists>more. scores (run_attempts cs s) = scores s @ more)"
  unfolding run_attempts_def
proof (induction cs arbitrary: s)
  case Nil
  then show ?case by simp
next
  case (Cons c cs)
  from store_after_keeps [of c s] obtain m1 where
    1: "quizzes (store_after c s) = quizzes s" "scores (store_after c s) = scores s @ m1"
    by blast
  from Cons [of "store_after c s"] obtain m2 where
    2: "quizzes (fold store_after cs (store_after c s)) = quizzes (store_after c s)"
       "scores (fold store_after cs (store_after c s)) = scores (store_after c s) @ m2"
    by blast
  from 1 2 show ?case by simp
qed

lemma score_first_kept:
  assumes "score_first qid uid s = Some sc"
  shows "score_first qid uid (run_attempts cs s) = Some sc"
proof -
  from run_attempts_keeps [of cs s] obtain more where
    "scores (run_attempts cs s) = scores s @ more" by blast
  with assms show ?thesis
    by (simp add: score_first_def find_append)
qed

lemma quiz_get_kept: "quiz_get qid (run_attempts cs s) = quiz_get qid s"
  using run_attempts_keeps [of cs s] by (simp add: quiz_get_def)

lemma handle_Submitted:
  assumes "handle c s = Inr (Submitted i, s')"
  shows "(\<exists>sc. score_first (call_quiz c) (call_user c) s' = Some sc \<and> score_id sc = i)
     \<and> (\<exists>quiz. quiz_get (call_quiz c) s' = Some quiz \<and> date_of_quiz quiz \<le> call_today c)"
  using assms
  by (auto simp: handle_def attempt_quiz_def attempt_quiz_prepare_def add_commit_def Let_def
      set_answers_def score_first_def quiz_get_def find_append
      split: option.splits sum.splits prod.splits if_splits)

lemma handle_existing:
  assumes "score_first (call_quiz c) (call_user c) s = Some sc"
    and "quiz_get (call_quiz c) s = Some quiz" and "date_of_quiz quiz \<le> call_today c"
  shows "handle c s = Inr (AlreadyAttempted (score_id sc), s)"
  using assms by (simp add: handle_def attempt_quiz_def attempt_quiz_prepare_def)

section \<open>Python numbers\<close>

text \<open>
  A Python \<^verbatim>\<open>int\<close> or \<^verbatim>\<open>float\<close> is modelled by its exact value, a rational number;
  \<^verbatim>\<open>0\<close> and \<^verbatim>\<open>0.0\<close> are not told apart. A \<^verbatim>\<open>float\<close> is an IEEE binary64 number, and
  every arithmetic operation returns the binary64 number nearest to the exact result, an
  exact tie going to the one with an even significand. \<open>to_float\<close> is that rounding,
  for a significand of 53 bits and an exponent without bounds: it is exact for the
  integers below \<open>2 ^ 53\<close>, and it differs from Python only beyond the range of
  binary64 (above \<open>1.7e308\<close> or below \<open>2.3e-308\<close> in magnitude), which quotients and
  sums of 64-bit column values do not reach.
\<close>

definition round_half_even :: "rat \<Rightarrow> int" where
  "round_half_even y =
     (let f = \<lfloor>y\<rfloor>; d = y - of_int f
      in if d < 1 / 2 then f
         else if 1 / 2 < d then f + 1
         else if even f then f else f + 1)"

definition pow2 :: "int \<Rightarrow> rat" where
  "pow2 e = (if 0 \<le> e then 2 ^ nat e else 1 / 2 ^ nat (- e))"

text \<open>
  The binary exponent of a non-zero number \<open>x\<close> is the \<open>e\<close> with
  \<open>2 ^ e \<le> \<bar>x\<bar> < 2 ^ (e + 1)\<close>; it is found from the bit lengths of the
  numerator and the denominator.
\<close>

function bit_length :: "int \<Rightarrow> int" where
  "bit_length n = (if n \<le> 0 then 0 else bit_length (n div 2) + 1)"
  by pat_completeness auto

termination
  by (relation "measure nat") auto

declare bit_length.simps [simp del]

definition binary_exponent :: "rat \<Rightarrow> int" where
  "binary_exponent x =
     (case quotient_of \<bar>x\<bar> of
        (p, q) \<Rightarrow>
          (let d = bit_length p - bit_length q
           in if pow2 d \<le> \<bar>x\<bar> then d else d - 1))"

definition to_float :: "rat \<Rightarrow> rat" where
  "to_float x =
     (if x = 0 then 0
      else (let e = binary_exponent x - 52
            in of_int (round_half_even (x / pow2 e)) * pow2 e))"

text \<open>
  \<^verbatim>\<open>a / b\<close> raises \<^verbatim>\<open>ZeroDivisionError\<close> for a zero divisor and is otherwise the
  correctly rounded quotient; \<^verbatim>\<open>x * y\<close> and \<^verbatim>\<open>x + y\<close> are the rounded product and sum.
\<close>

definition py_truediv :: "rat \<Rightarrow> rat \<Rightarrow> py_error + rat" where
  "py_truediv a b = (if b = 0 then Inl ZeroDivisionError else Inr (to_float (a / b)))"

definition py_mul :: "rat \<Rightarrow> rat \<Rightarrow> rat" where
  "py_mul x y = to_float (x * y)"

definition py_add :: "rat \<Rightarrow> rat \<Rightarrow> rat" where
  "py_add x y = to_float (x + y)"

text \<open>
  \<^verbatim>\<open>round(x, ndigits)\<close>: CPython writes the exact value of \<open>x\<close> as a decimal numeral
  with \<open>ndigits\<close> digits after the point, correctly rounded, an exact tie going to the
  even last digit, and reads that numeral back as a \<^verbatim>\<open>float\<close>.
\<close>

definition py_round :: "rat \<Rightarrow> nat \<Rightarrow> rat" where
  "py_round x ndigits =
     to_float (of_int (round_half_even (x * 10 ^ ndigits)) / 10 ^ ndigits)"

subsection \<open>Rounding to the nearest integer, ties to even\<close>

lemma round_half_even_nearest:
  "\<bar>of_int (round_half_even y) - y\<bar> \<le> 1 / 2"
proof -
  have "of_int \<lfloor>y\<rfloor> \<le> y" "y < of_int \<lfloor>y\<rfloor> + 1"
    by linarith+
  then show ?thesis
    by (auto simp: round_half_even_def Let_def)
qed

lemma round_half_even_tie:
  "\<bar>of_int (round_half_even y) - y\<bar> = 1 / 2 \<Longrightarrow> even (round_half_even y)"
proof -
  assume tie: "\<bar>of_int (round_half_even y) - y\<bar> = 1 / 2"
  have fl: "of_int \<lfloor>y\<rfloor> \<le> y" "y < of_int \<lfloor>y\<rfloor> + 1"
    by linarith+
  show ?thesis
  proof (cases "y - of_int \<lfloor>y\<rfloor> < 1 / 2")
    case True
    with tie fl show ?thesis
      by (auto simp: round_half_even_def Let_def)
  next
    case False
    show ?thesis
    proof (cases "1 / 2 < y - of_int \<lfloor>y\<rfloor>")
      case True
      with tie fl show ?thesis
        by (auto simp: round_half_even_def Let_def)
    next
      case False
      with \<open>\<not> y - of_int \<lfloor>y\<rfloor> < 1 / 2\<close> show ?thesis
        by (auto simp: round_half_even_def Let_def)
    qed
  qed
qed

subsection \<open>The exponent and the rounding error of \<open>to_float\<close>\<close>

lemma pow2_power_int: "pow2 e = power_int 2 e"
  by (simp add: pow2_def power_int_def inverse_eq_divide power_one_over)

lemma pow2_pos: "0 < pow2 e"
  by (simp add: pow2_power_int)

lemma pow2_Suc: "pow2 (e + 1) = 2 * pow2 e"
  by (simp add: pow2_power_int power_int_add)

lemma pow2_diff: "pow2 (a - b) = pow2 a / pow2 b"
  by (simp add: pow2_power_int power_int_diff)

lemma bit_length_1: "bit_length 1 = 1"
  by (simp add: bit_length.simps [of 1] bit_length.simps [of 0])

lemma bit_length_int:
  "0 < n \<Longrightarrow>
   1 \<le> bit_length n \<and> 2 ^ nat (bit_length n - 1) \<le> n \<and> n < 2 ^ nat (bit_length n)"
proof (induction n rule: bit_length.induct)
  case (1 n)
  show ?case
  proof (cases "n = 1")
    case True
    then show ?thesis
      by (simp add: bit_length_1)
  next
    case False
    with 1(2) have h: "0 < n div 2" by simp
    have nle: "\<not> n \<le> 0" using 1(2) by simp
    from 1(1) [OF nle h] have
      ih: "1 \<le> bit_length (n div 2)"
        "2 ^ nat (bit_length (n div 2) - 1) \<le> n div 2"
        "n div 2 < 2 ^ nat (bit_length (n div 2))"
      by auto
    have bl: "bit_length n = bit_length (n div 2) + 1"
      using 1(2) by (subst bit_length.simps) simp
    define k where "k = nat (bit_length (n div 2) - 1)"
    have k1: "nat (bit_length (n div 2)) = Suc k"
      using ih(1) by (simp add: k_def)
    have k2: "nat (bit_length n - 1) = Suc k" "nat (bit_length n) = Suc (Suc k)"
      using ih(1) bl by (simp_all add: k_def)
    have half: "2 * (n div 2) \<le> n" "n < 2 * (n div 2) + 2"
      by arith+
    from ih(2) have "(2::int) ^ k \<le> n div 2"
      by (simp only: k_def)
    with half(1) have lo: "(2::int) ^ Suc k \<le> n"
      by simp
    from ih(3) have "n div 2 < 2 ^ Suc k"
      by (simp only: k1)
    with half(2) have hi: "n < 2 ^ Suc (Suc k)"
      by simp
    show ?thesis
    proof (intro conjI)
      show "1 \<le> bit_length n"
        using ih(1) bl by simp
      show "2 ^ nat (bit_length n - 1) \<le> n"
        unfolding k2 by (rule lo)
      show "n < 2 ^ nat (bit_length n)"
        unfolding k2 by (rule hi)
    qed
  qed
qed

lemma bit_length_bounds:
  assumes "0 < n"
  shows "pow2 (bit_length n - 1) \<le> of_int n" "of_int n < pow2 (bit_length n)"
proof -
  from bit_length_int [OF assms] have
    b: "1 \<le> bit_length n" "2 ^ nat (bit_length n - 1) \<le> n" "n < 2 ^ nat (bit_length n)"
    by auto
  from b(2) have "(of_int (2 ^ nat (bit_length n - 1)) :: rat) \<le> of_int n"
    by (simp only: of_int_le_iff)
  with b(1) show "pow2 (bit_length n - 1) \<le> of_int n"
    by (simp add: pow2_def)
  from b(3) have "(of_int n :: rat) < of_int (2 ^ nat (bit_length n))"
    by (simp only: of_int_less_iff)
  with b(1) show "of_int n < pow2 (bit_length n)"
    by (simp add: pow2_def)
qed

lemma binary_exponent_bounds:
  assumes "x \<noteq> 0"
  shows "pow2 (binary_exponent x) \<le> \<bar>x\<bar>" "\<bar>x\<bar> < pow2 (binary_exponent x + 1)"
proof -
  obtain p q where pq: "quotient_of \<bar>x\<bar> = (p, q)"
    by (cases "quotient_of \<bar>x\<bar>")
  have q: "0 < q"
    using pq by (rule quotient_of_denom_pos)
  have x: "\<bar>x\<bar> = of_int p / of_int q"
    using pq by (rule quotient_of_div)
  have p: "0 < p"
  proof -
    have "0 < \<bar>x\<bar>" using assms by simp
    with x q show ?thesis
      by (simp add: zero_less_divide_iff)
  qed
  define d where "d = bit_length p - bit_length q"
  have e: "binary_exponent x = (if pow2 d \<le> \<bar>x\<bar> then d else d - 1)"
    by (simp add: binary_exponent_def pq d_def Let_def)
  have qr: "(0::rat) < of_int q" using q by simp
  have up: "\<bar>x\<bar> < pow2 (d + 1)"
  proof -
    have a: "of_int p < pow2 (bit_length p)"
      by (rule bit_length_bounds [OF p])
    have b: "pow2 (bit_length q - 1) \<le> of_int q"
      by (rule bit_length_bounds [OF q])
    have "d + 1 = bit_length p - (bit_length q - 1)"
      by (simp add: d_def)
    then have c: "pow2 (d + 1) = pow2 (bit_length p) / pow2 (bit_length q - 1)"
      by (simp only: pow2_diff)
    have "of_int p / of_int q < pow2 (bit_length p) / pow2 (bit_length q - 1)"
    proof (rule frac_less)
      show "(0::rat) \<le> of_int p" using p by simp
      show "of_int p < pow2 (bit_length p)" by (rule a)
      show "0 < pow2 (bit_length q - 1)" by (rule pow2_pos)
      show "pow2 (bit_length q - 1) \<le> of_int q" by (rule b)
    qed
    then show ?thesis
      by (simp only: x c)
  qed
  have low: "pow2 (d - 1) \<le> \<bar>x\<bar>"
  proof -
    have a: "pow2 (bit_length p - 1) \<le> of_int p"
      by (rule bit_length_bounds [OF p])
    have b: "of_int q \<le> pow2 (bit_length q)"
      using bit_length_bounds(2) [OF q] by simp
    have "d - 1 = bit_length p - 1 - bit_length q"
      by (simp add: d_def)
    then have c: "pow2 (d - 1) = pow2 (bit_length p - 1) / pow2 (bit_length q)"
      by (simp only: pow2_diff)
    have "pow2 (bit_length p - 1) / pow2 (bit_length q) \<le> of_int p / of_int q"
    proof (rule frac_le)
      show "(0::rat) \<le> of_int p" using p by simp
      show "pow2 (bit_length p - 1) \<le> of_int p" by (rule a)
      show "(0::rat) < of_int q" by (rule qr)
      show "of_int q \<le> pow2 (bit_length q)" by (rule b)
    qed
    then show ?thesis
      by (simp only: x c)
  qed
  show "pow2 (binary_exponent x) \<le> \<bar>x\<bar>"
    using e low by simp
  show "\<bar>x\<bar> < pow2 (binary_exponent x + 1)"
    using e up by (auto split: if_splits)
qed

text \<open>
  Hence \<open>to_float x\<close> is a multiple of \<open>2 ^ (e - 52)\<close>, for the binary exponent \<open>e\<close>
  of \<open>x\<close>, that is at most half such a unit away from \<open>x\<close>: a nearest number with
  a significand of 53 bits.
\<close>

lemma to_float_nearest:
  assumes "x \<noteq> 0"
  shows "\<exists>m. to_float x = of_int m * pow2 (binary_exponent x - 52)
     \<and> \<bar>to_float x - x\<bar> \<le> pow2 (binary_exponent x - 52) / 2
     \<and> \<bar>of_int m\<bar> \<le> (2::rat) ^ 53"
proof -
  define u where "u = pow2 (binary_exponent x - 52)"
  define m where "m = round_half_even (x / u)"
  have u: "0 < u" by (simp add: u_def pow2_pos)
  have tf: "to_float x = of_int m * u"
    using assms by (simp add: to_float_def Let_def m_def u_def)
  have near: "\<bar>of_int m - x / u\<bar> \<le> 1 / 2"
    unfolding m_def by (rule round_half_even_nearest)
  have "\<bar>to_float x - x\<bar> = \<bar>of_int m - x / u\<bar> * u"
  proof -
    have "to_float x - x = (of_int m - x / u) * u"
      using u by (simp add: tf field_simps)
    then show ?thesis
      using u by (simp add: abs_mult)
  qed
  with near u have err: "\<bar>to_float x - x\<bar> \<le> u / 2"
    by (simp add: field_simps)
  have ux: "pow2 (binary_exponent x + 1) = u * 2 ^ 53"
  proof -
    have "binary_exponent x + 1 = binary_exponent x - 52 + 53"
      by simp
    then have "pow2 (binary_exponent x + 1) = power_int 2 (binary_exponent x - 52 + 53)"
      by (simp only: pow2_power_int)
    also have "\<dots> = power_int 2 (binary_exponent x - 52) * power_int 2 53"
      by (rule power_int_add) simp
    finally show ?thesis
      by (simp add: u_def pow2_power_int)
  qed
  have "\<bar>x\<bar> < u * 2 ^ 53"
    using binary_exponent_bounds(2) [OF assms] by (simp only: ux)
  then have "\<bar>x / u\<bar> < 2 ^ 53"
    using u by (simp add: pos_divide_less_eq mult.commute)
  with near have "\<bar>(of_int m :: rat)\<bar> < 2 ^ 53 + 1"
    by linarith
  then have "(of_int \<bar>m\<bar> :: rat) < of_int (2 ^ 53 + 1)"
    by simp
  then have "\<bar>m\<bar> < 2 ^ 53 + 1"
    by (simp only: of_int_less_iff)
  then have "\<bar>m\<bar> \<le> 2 ^ 53"
    by simp
  then have "(of_int \<bar>m\<bar> :: rat) \<le> of_int (2 ^ 53)"
    by (simp only: of_int_le_iff)
  then have "\<bar>(of_int m :: rat)\<bar> \<le> 2 ^ 53"
    by simp
  with tf err show ?thesis
    unfolding u_def by blast
qed

subsection \<open>What \<^verbatim>\<open>round(x, 2)\<close> returns\<close>

text \<open>
  \<open>v\<close> is \<open>x\<close> rounded to two decimals, ties to even: \<open>v\<close> is the float of \<open>n / 100\<close>
  for the integer \<open>n\<close> nearest to \<open>100 x\<close>, and for the even one when two are
  equally near.
\<close>

definition nearest_hundredth_even :: "rat \<Rightarrow> rat \<Rightarrow> bool" where
  "nearest_hundredth_even x v \<longleftrightarrow>
     (\<exists>n::int. v = to_float (of_int n / 100)
        \<and> \<bar>of_int n - x * 100\<bar> \<le> 1 / 2
        \<and> (\<bar>of_int n - x * 100\<bar> = 1 / 2 \<longrightarrow> even n))"

lemma py_round_2: "nearest_hundredth_even x (py_round x 2)"
  unfolding nearest_hundredth_even_def py_round_def
  using round_half_even_nearest [of "x * 100"] round_half_even_tie [of "x * 100"]
  by (intro exI [of _ "round_half_even (x * 100)"]) simp

section \<open>Percentages and statistics\<close>

text \<open>
  \<^verbatim>\<open>Score.percentage\<close> of \<^verbatim>\<open>models.py\<close>. \<open>percentage_ratio\<close> is its subexpression
  \<^verbatim>\<open>(self.total_scored / self.total_questions) * 100\<close>.
\<close>

definition percentage_ratio :: "score \<Rightarrow> py_error + rat" where
  "percentage_ratio sc =
     (case py_truediv (of_int (total_scored sc)) (of_int (total_questions sc)) of
        Inl e \<Rightarrow> Inl e
      | Inr r \<Rightarrow> Inr (py_mul r 100))"

definition percentage :: "score \<Rightarrow> py_error + rat" where
  "percentage sc =
     (if total_questions sc = 0 then Inr 0
      else (case percentage_ratio sc of
              Inl e \<Rightarrow> Inl e
            | Inr x \<Rightarrow> Inr (py_round x 2)))"

text \<open>
  The builtin \<^verbatim>\<open>sum\<close> depends on the interpreter, and nothing in the repository fixes
  one. Up to CPython 3.11 it adds the items from left to right, each addition rounded
  (\<open>sum_plain\<close>). From CPython 3.12 it carries a compensation term for the rounding
  errors of the additions and adds it at the end (\<open>sum_compensated\<close>, for items that
  are floats or the integer \<^verbatim>\<open>0\<close>, which is all that \<^verbatim>\<open>percentage\<close> returns). The
  two can differ in the last bit of the total. The statistics below therefore take the
  interpreter's \<^verbatim>\<open>sum\<close> as their first argument, \<open>builtin_sum\<close>.
\<close>

definition sum_plain :: "rat list \<Rightarrow> rat" where
  "sum_plain xs = foldl py_add 0 xs"

definition py_sub :: "rat \<Rightarrow> rat \<Rightarrow> rat" where
  "py_sub x y = to_float (x - y)"

fun compensated :: "rat \<Rightarrow> rat \<Rightarrow> rat list \<Rightarrow> rat" where
  "compensated f_result c [] = (if c \<noteq> 0 then py_add f_result c else f_result)"
| "compensated f_result c (x # xs) =
     (let t = py_add f_result x;
          c' = (if \<bar>x\<bar> \<le> \<bar>f_result\<bar> then py_add c (py_add (py_sub f_result t) x)
                else py_add c (py_add (py_sub x t) f_result))
      in compensated t c' xs)"

definition sum_compensated :: "rat list \<Rightarrow> rat" where
  "sum_compensated xs = compensated 0 0 xs"

text \<open>
  The items of the generator \<^verbatim>\<open>score.percentage() for score in scores\<close>, and the
  average of some scores before it is rounded: lines 50 to 55 of
  \<^verbatim>\<open>get_dashboard_stats\<close> and lines 82 to 85 of \<^verbatim>\<open>get_user_stats\<close>.
\<close>

fun percentages :: "score list \<Rightarrow> py_error + rat list" where
  "percentages [] = Inr []"
| "percentages (sc # scs) =
     (case percentage sc of
        Inl e \<Rightarrow> Inl e
      | Inr p \<Rightarrow>
          (case percentages scs of
             Inl e \<Rightarrow> Inl e
           | Inr ps \<Rightarrow> Inr (p # ps)))"

definition average_percentage :: "(rat list \<Rightarrow> rat) \<Rightarrow> score list \<Rightarrow> py_error + rat" where
  "average_percentage builtin_sum scs =
     (if scs \<noteq> [] then
        (case percentages scs of
           Inl e \<Rightarrow> Inl e
         | Inr ps \<Rightarrow> py_truediv (builtin_sum ps) (of_nat (length scs)))
      else Inr 0)"

subsection \<open>The quiz statistics of the admin dashboard\<close>

text \<open>
  The entry \<^verbatim>\<open>quiz_stats\<close> of \<^verbatim>\<open>get_dashboard_stats\<close> (lines 46 to 64 and 73). The
  other entries of the result, four row counts and two queries ordered by creation time,
  are not modelled.
\<close>

record quiz_stat =
  stat_quiz :: quiz
  avg_score :: rat
  attempts :: nat

definition scores_of_quiz :: "db \<Rightarrow> quiz \<Rightarrow> score list" where
  "scores_of_quiz s quiz = filter (\<lambda>sc. score_quiz_id sc = quiz_id quiz) (scores s)"

definition quiz_stat_of :: "(rat list \<Rightarrow> rat) \<Rightarrow> db \<Rightarrow> quiz \<Rightarrow> py_error + quiz_stat" where
  "quiz_stat_of builtin_sum s quiz =
     (let scs = scores_of_quiz s quiz in
      case average_percentage builtin_sum scs of
        Inl e \<Rightarrow> Inl e
      | Inr avg \<Rightarrow>
          Inr \<lparr>stat_quiz = quiz, avg_score = py_round avg 2,
               attempts = (if scs \<noteq> [] then length scs else 0)\<rparr>)"

fun collect_quiz_stats ::
  "(rat list \<Rightarrow> rat) \<Rightarrow> db \<Rightarrow> quiz list \<Rightarrow> quiz_stat list
     \<Rightarrow> py_error + quiz_stat list" where
  "collect_quiz_stats builtin_sum s [] quiz_stats = Inr quiz_stats"
| "collect_quiz_stats builtin_sum s (quiz # rest) quiz_stats =
     (case quiz_stat_of builtin_sum s quiz of
        Inl e \<Rightarrow> Inl e
      | Inr st \<Rightarrow> collect_quiz_stats builtin_sum s rest (quiz_stats @ [st]))"

text \<open>
  \<^verbatim>\<open>list.sort(key=..., reverse=True)\<close> is stable: CPython reverses the list, sorts it
  stably in ascending order of the key, and reverses the result.
\<close>

definition sort_reverse :: "('a \<Rightarrow> nat) \<Rightarrow> 'a list \<Rightarrow> 'a list" where
  "sort_reverse key xs = rev (sort_key key (rev xs))"

definition dashboard_quiz_stats :: "(rat list \<Rightarrow> rat) \<Rightarrow> db \<Rightarrow> py_error + quiz_stat list" where
  "dashboard_quiz_stats builtin_sum s =
     (case collect_quiz_stats builtin_sum s (quizzes s) [] of
        Inl e \<Rightarrow> Inl e
      | Inr quiz_stats \<Rightarrow> Inr (take 5 (sort_reverse attempts quiz_stats)))"

subsection \<open>The statistics of the user dashboard\<close>

text \<open>
  \<^verbatim>\<open>get_user_stats\<close> without its two entries \<^verbatim>\<open>recent_scores\<close> and
  \<^verbatim>\<open>upcoming_quizzes\<close>. \<^verbatim>\<open>Model.query.get\<close> returns \<^verbatim>\<open>None\<close> for a key that is not
  in the table, and reading an attribute of \<^verbatim>\<open>None\<close> raises \<^verbatim>\<open>AttributeError\<close>.
\<close>

definition chapter_get :: "int \<Rightarrow> db \<Rightarrow> chapter_row option" where
  "chapter_get cid s = find (\<lambda>c. chapter_id c = cid) (chapters s)"

definition subject_get :: "int \<Rightarrow> db \<Rightarrow> subject option" where
  "subject_get sid s = find (\<lambda>b. subject_id b = sid) (subjects s)"

record subject_data =
  data_scores :: "rat list"
  data_total :: rat
  data_count :: nat

definition subject_name_of :: "db \<Rightarrow> score \<Rightarrow> py_error + string" where
  "subject_name_of s sc =
     (case quiz_get (score_quiz_id sc) s of
        None \<Rightarrow> Inl AttributeError
      | Some quiz \<Rightarrow>
          (case chapter_get (quiz_chapter_id quiz) s of
             None \<Rightarrow> Inl AttributeError
           | Some ch \<Rightarrow>
               (case subject_get (chapter_subject_id ch) s of
                  None \<Rightarrow> Inl AttributeError
                | Some subj \<Rightarrow> Inr (subject_name subj))))"

definition add_to_subject :: "rat \<Rightarrow> subject_data \<Rightarrow> subject_data" where
  "add_to_subject p d =
     \<lparr>data_scores = data_scores d @ [p], data_total = py_add (data_total d) p,
      data_count = data_count d + 1\<rparr>"

fun collect_subject_scores ::
  "db \<Rightarrow> score list \<Rightarrow> (string \<times> subject_data) list
     \<Rightarrow> py_error + (string \<times> subject_data) list" where
  "collect_subject_scores s [] subject_scores = Inr subject_scores"
| "collect_subject_scores s (sc # rest) subject_scores =
     (case subject_name_of s sc of
        Inl e \<Rightarrow> Inl e
      | Inr name \<Rightarrow>
          (let d = (case map_of subject_scores name of
                      None \<Rightarrow> \<lparr>data_scores = [], data_total = 0, data_count = 0\<rparr>
                    | Some d \<Rightarrow> d)
           in case percentage sc of
                Inl e \<Rightarrow> Inl e
              | Inr p \<Rightarrow>
                  collect_subject_scores s rest
                    (AList.update name (add_to_subject p d) subject_scores)))"

definition subject_average :: "subject_data \<Rightarrow> py_error + rat" where
  "subject_average d =
     (if data_count d > 0 then
        (case py_truediv (data_total d) (of_nat (data_count d)) of
           Inl e \<Rightarrow> Inl e
         | Inr q \<Rightarrow> Inr (py_round q 2))
      else Inr 0)"

fun subject_averages ::
  "(string \<times> subject_data) list \<Rightarrow> (string \<times> rat) list \<Rightarrow> py_error + (string \<times> rat) list" where
  "subject_averages [] subject_avg = Inr subject_avg"
| "subject_averages ((name, d) # rest) subject_avg =
     (case subject_average d of
        Inl e \<Rightarrow> Inl e
      | Inr v \<Rightarrow> subject_averages rest (AList.update name v subject_avg))"

definition completion_ratio :: "nat \<Rightarrow> nat \<Rightarrow> py_error + rat" where
  "completion_ratio completed total_quizzes =
     (case py_truediv (of_nat completed) (of_nat total_quizzes) of
        Inl e \<Rightarrow> Inl e
      | Inr r \<Rightarrow> Inr (py_mul r 100))"

record user_stats =
  avg_percentage :: rat
  completed_quizzes :: nat
  completion_rate :: rat
  subject_avg :: "(string \<times> rat) list"

definition get_user_stats :: "(rat list \<Rightarrow> rat) \<Rightarrow> int \<Rightarrow> db \<Rightarrow> py_error + user_stats" where
  "get_user_stats builtin_sum user_id s =
     (let user_scores = filter (\<lambda>sc. score_user_id sc = user_id) (scores s) in
      case average_percentage builtin_sum user_scores of
        Inl e \<Rightarrow> Inl e
      | Inr avg \<Rightarrow>
          (let completed = length user_scores;
               total_quizzes = length (quizzes s)
           in case collect_subject_scores s user_scores [] of
                Inl e \<Rightarrow> Inl e
              | Inr subject_scores \<Rightarrow>
                  (case subject_averages subject_scores [] of
                     Inl e \<Rightarrow> Inl e
                   | Inr averages \<Rightarrow>
                       (case (if total_quizzes > 0 then
                                (case completion_ratio completed total_quizzes of
                                   Inl e \<Rightarrow> Inl e
                                 | Inr x \<Rightarrow> Inr (py_round x 2))
                              else Inr 0) of
                          Inl e \<Rightarrow> Inl e
                        | Inr rate \<Rightarrow>
                            Inr \<lparr>avg_percentage = py_round avg 2,
                                 completed_quizzes = completed,
                                 completion_rate = rate,
                                 subject_avg = averages\<rparr>))))"

subsection \<open>The statistics raise no exception\<close>

lemma percentage_ratio_value:
  "total_questions sc \<noteq> 0 \<Longrightarrow>
   percentage_ratio sc =
     Inr (py_mul (to_float (of_int (total_scored sc) / of_int (total_questions sc))) 100)"
  by (simp add: percentage_ratio_def py_truediv_def)

definition percentage_value :: "score \<Rightarrow> rat" where
  "percentage_value sc =
     (if total_questions sc = 0 then 0
      else py_round
        (py_mul (to_float (of_int (total_scored sc) / of_int (total_questions sc))) 100) 2)"

lemma percentage_Inr: "percentage sc = Inr (percentage_value sc)"
  by (simp add: percentage_def percentage_value_def percentage_ratio_value)

lemma percentages_Inr: "percentages scs = Inr (map percentage_value scs)"
  by (induction scs) (simp_all add: percentage_Inr)

text \<open>
  The mean of some numbers as Python computes it: their \<^verbatim>\<open>sum\<close>, divided by their
  count.
\<close>

definition float_mean :: "(rat list \<Rightarrow> rat) \<Rightarrow> rat list \<Rightarrow> rat" where
  "float_mean builtin_sum xs = to_float (builtin_sum xs / of_nat (length xs))"

lemma average_percentage_Inr:
  "average_percentage builtin_sum scs =
     Inr (if scs = [] then 0 else float_mean builtin_sum (map percentage_value scs))"
  by (simp add: average_percentage_def percentages_Inr py_truediv_def float_mean_def)

lemma to_float_0 [simp]: "to_float 0 = 0"
  by (simp add: to_float_def)

lemma round_half_even_0 [simp]: "round_half_even 0 = 0"
  by (simp add: round_half_even_def)

lemma py_round_0 [simp]: "py_round 0 n = 0"
  by (simp add: py_round_def)

definition expected_stat :: "(rat list \<Rightarrow> rat) \<Rightarrow> db \<Rightarrow> quiz \<Rightarrow> quiz_stat" where
  "expected_stat builtin_sum s quiz =
     \<lparr>stat_quiz = quiz,
      avg_score =
        (if scores_of_quiz s quiz = [] then 0
         else py_round
           (float_mean builtin_sum (map percentage_value (scores_of_quiz s quiz))) 2),
      attempts = length (scores_of_quiz s quiz)\<rparr>"

lemma quiz_stat_of_Inr:
  "quiz_stat_of builtin_sum s quiz = Inr (expected_stat builtin_sum s quiz)"
  by (simp add: quiz_stat_of_def average_percentage_Inr expected_stat_def Let_def)

lemma collect_quiz_stats_Inr:
  "collect_quiz_stats builtin_sum s qs acc = Inr (acc @ map (expected_stat builtin_sum s) qs)"
  by (induction qs arbitrary: acc) (simp_all add: quiz_stat_of_Inr)

lemma dashboard_quiz_stats_Inr:
  "dashboard_quiz_stats builtin_sum s =
     Inr (take 5 (sort_reverse attempts (map (expected_stat builtin_sum s) (quizzes s))))"
  by (simp add: dashboard_quiz_stats_def collect_quiz_stats_Inr)

subsection \<open>Sorting with \<^verbatim>\<open>reverse=True\<close>\<close>



lemma set_sort_reverse [simp]: "set (sort_reverse key xs) = set xs"
  by (simp add: sort_reverse_def)

lemma length_sort_reverse [simp]: "length (sort_reverse key xs) = length xs"
  by (simp add: sort_reverse_def)


subsection \<open>Where the values of the user statistics come from\<close>

lemma set_update_subset: "set (AList.update k v al) \<subseteq> insert (k, v) (set al)"
  by (induction al) auto

lemma subject_averages_source:
  "subject_averages data acc = Inr avgs \<Longrightarrow> (name, v) \<in> set avgs \<Longrightarrow>
   (name, v) \<in> set acc \<or> (\<exists>d. (name, d) \<in> set data \<and> subject_average d = Inr v)"
proof (induction data arbitrary: acc)
  case Nil
  then show ?case by simp
next
  case (Cons nd data)
  obtain n d where nd: "nd = (n, d)" by (cases nd)
  from Cons.prems(1) nd obtain w where
    w: "subject_average d = Inr w" and
    rest: "subject_averages data (AList.update n w acc) = Inr avgs"
    by (auto split: sum.splits)
  from Cons.IH [OF rest Cons.prems(2)] consider
    (acc) "(name, v) \<in> set (AList.update n w acc)"
    | (data) "\<exists>d. (name, d) \<in> set data \<and> subject_average d = Inr v"
    by blast
  then show ?case
  proof cases
    case acc
    with set_update_subset [of n w acc] have "(name, v) = (n, w) \<or> (name, v) \<in> set acc"
      by auto
    with w nd show ?thesis by auto
  next
    case data
    then show ?thesis by auto
  qed
qed

lemma subject_average_value:
  "subject_average d = Inr v \<Longrightarrow>
   (if data_count d > 0
    then nearest_hundredth_even (to_float (data_total d / of_nat (data_count d))) v
    else v = 0)"
  by (auto simp: subject_average_def py_truediv_def py_round_2 split: if_splits)

definition scores_of_user :: "db \<Rightarrow> int \<Rightarrow> score list" where
  "scores_of_user s user_id = filter (\<lambda>sc. score_user_id sc = user_id) (scores s)"

lemma get_user_stats_Inr:
  assumes "get_user_stats builtin_sum user_id s = Inr us"
  shows "\<exists>avg data.
      average_percentage builtin_sum (scores_of_user s user_id) = Inr avg
      \<and> avg_percentage us = py_round avg 2
      \<and> completed_quizzes us = length (scores_of_user s user_id)
      \<and> collect_subject_scores s (scores_of_user s user_id) [] = Inr data
      \<and> subject_averages data [] = Inr (subject_avg us)
      \<and> (if quizzes s = [] then completion_rate us = 0
          else \<exists>x. completion_ratio (length (scores_of_user s user_id)) (length (quizzes s))
                  = Inr x \<and> completion_rate us = py_round x 2)"
  using assms
  by (auto simp: get_user_stats_def scores_of_user_def Let_def
      split: sum.splits if_splits)

section \<open>A small store\<close>

text \<open>
  One quiz, dated day 10, with two questions whose correct options are 1 and 3; a form
  that answers 1 and 2; a form whose first answer is not a numeral; and the store after
  user 1 has taken the quiz.
\<close>

definition quiz_a :: quiz where
  "quiz_a = \<lparr>quiz_id = 1, quiz_chapter_id = 1, date_of_quiz = 10\<rparr>"

definition question_a :: question where
  "question_a = \<lparr>question_id = 1, question_quiz_id = 1, correct_option = 1\<rparr>"

definition question_b :: question where
  "question_b = \<lparr>question_id = 2, question_quiz_id = 1, correct_option = 3\<rparr>"

definition store_new :: db where
  "store_new =
     \<lparr>subjects = [\<lparr>subject_id = 1, subject_name = ''Algebra''\<rparr>],
      chapters = [\<lparr>chapter_id = 1, chapter_subject_id = 1\<rparr>],
      quizzes = [quiz_a], questions = [question_a, question_b], scores = []\<rparr>"

definition form_1_2 :: "string \<Rightarrow> string option" where
  "form_1_2 = [''question_1'' \<mapsto> ''1'', ''question_2'' \<mapsto> ''2'']"

definition post_1_2 :: request where
  "post_1_2 = \<lparr>req_method = POST, req_validates = True, req_form = form_1_2\<rparr>"

definition form_abc :: "string \<Rightarrow> string option" where
  "form_abc = [''question_1'' \<mapsto> ''abc'', ''question_2'' \<mapsto> ''3'']"

definition post_abc :: request where
  "post_abc = \<lparr>req_method = POST, req_validates = True, req_form = form_abc\<rparr>"

definition score_a :: score where
  "score_a = set_answers [(''1'', Some ''1''), (''2'', Some ''2'')]
     \<lparr>score_id = Some 1, score_quiz_id = 1, score_user_id = 1, total_scored = 1,
        total_questions = 2, answers = None\<rparr>"

definition store_taken :: db where
  "store_taken = store_new\<lparr>scores := [score_a]\<rparr>"

lemma py_str_1: "py_str 1 = ''1''"
  by (simp add: py_str_def nat_digits.simps digit_char_def)

lemma py_str_2: "py_str 2 = ''2''"
  by (simp add: py_str_def nat_digits.simps digit_char_def)

lemma py_int_examples:
  "py_int ''1'' = Inr 1" "py_int ''2'' = Inr 2" "py_int ''3'' = Inr 3"
  "py_int ''abc'' = Inl ValueError"
  by (simp_all add: py_int_def strip_def is_py_space_def is_digit_def digit_value_def)

lemma quiz_get_store_new: "quiz_get 1 store_new = Some quiz_a"
  by (simp add: quiz_get_def store_new_def quiz_a_def)

lemma quiz_get_store_taken: "quiz_get 1 store_taken = Some quiz_a"
  by (simp add: quiz_get_def store_taken_def store_new_def quiz_a_def)

lemma score_first_store_new: "score_first 1 1 store_new = None"
  by (simp add: score_first_def store_new_def)

lemma score_first_store_taken: "score_first 1 1 store_taken = Some score_a"
  by (simp add: score_first_def store_taken_def score_a_def set_answers_def)

lemma questions_of_store_new: "questions_of 1 store_new = [question_a, question_b]"
  by (simp add: questions_of_def store_new_def question_a_def question_b_def)

lemma grade_form_1_2:
  "grade form_1_2 [question_a, question_b] 0 [] = Inr (1, [(''1'', Some ''1''), (''2'', Some ''2'')])"
  by (simp add: question_a_def question_b_def form_1_2_def py_str_1 py_str_2
      answer_matches_def py_int_examples Let_def)

lemma grade_form_abc:
  "grade form_abc [question_a, question_b] 0 [] = Inl ValueError"
  by (simp add: question_a_def question_b_def form_abc_def py_str_1 py_str_2
      answer_matches_def py_int_examples Let_def)

lemma fresh_id_store_new: "fresh_id store_new = 1"
  by (simp add: fresh_id_def store_new_def)

lemma attempt_post_1_2:
  "attempt_quiz 10 1 1 post_1_2 store_new = Inr (Submitted (Some 1), store_taken)"
  by (simp add: attempt_quiz_def attempt_quiz_prepare_def quiz_get_store_new
      score_first_store_new questions_of_store_new validate_on_submit_def post_1_2_def
      grade_form_1_2 add_commit_def fresh_id_store_new quiz_a_def store_taken_def
      score_a_def set_answers_def del: grade.simps)
    (simp add: store_new_def Let_def)

section \<open>Reading answers that were never stored\<close>

text \<open>
  Claim C10. For a Score whose \<^verbatim>\<open>answers\<close> field is \<^verbatim>\<open>None\<close> or the empty string,
  \<^verbatim>\<open>get_answers\<close> returns the empty dictionary; it does not try to decode the field.
\<close>

theorem get_answers_absent:
  "answers sc = None \<or> answers sc = Some [] \<Longrightarrow> get_answers sc = Some []"
  by (auto simp: get_answers_def)

theorem get_answers_absent_witness:
  "get_answers \<lparr>score_id = Some 1, score_quiz_id = 1, score_user_id = 1, total_scored = 0,
      total_questions = 0, answers = None\<rparr> = Some []
   \<and> get_answers \<lparr>score_id = Some 1, score_quiz_id = 1, score_user_id = 1, total_scored = 0,
      total_questions = 0, answers = Some []\<rparr> = Some []"
  using get_answers_absent [of "\<lparr>score_id = Some 1, score_quiz_id = 1, score_user_id = 1,
      total_scored = 0, total_questions = 0, answers = None\<rparr>"]
    get_answers_absent [of "\<lparr>score_id = Some 1, score_quiz_id = 1, score_user_id = 1,
      total_scored = 0, total_questions = 0, answers = Some []\<rparr>"]
  by simp

section \<open>Answer maps survive storage\<close>

text \<open>
  Claim C8. An answer map, with one value per key that is the selected option or
  \<^verbatim>\<open>None\<close> for an unanswered question, is returned unchanged by \<^verbatim>\<open>get_answers\<close>
  after \<^verbatim>\<open>set_answers\<close> stored it; the entries whose value is \<^verbatim>\<open>None\<close> are kept. The
  keys of a Python \<^verbatim>\<open>dict\<close> are distinct.
\<close>

theorem answers_round_trip:
  "distinct (map fst d) \<Longrightarrow> get_answers (set_answers d sc) = Some d"
proof -
  assume "distinct (map fst d)"
  then have "json_loads (json_dumps d) = Some d"
    by (rule loads_dumps)
  moreover have "json_dumps d \<noteq> []"
    by (simp add: json_dumps_def)
  ultimately show ?thesis
    by (simp add: get_answers_def set_answers_def)
qed

theorem answers_round_trip_witness:
  "distinct (map fst [(''7'', Some ''2''), (''8'', None)])
   \<and> get_answers (set_answers [(''7'', Some ''2''), (''8'', None)]
         \<lparr>score_id = Some 1, score_quiz_id = 1, score_user_id = 1, total_scored = 0,
            total_questions = 2, answers = None\<rparr>)
       = Some [(''7'', Some ''2''), (''8'', None)]"
  using answers_round_trip [of "[(''7'', Some ''2''), (''8'', None)]"
      "\<lparr>score_id = Some 1, score_quiz_id = 1, score_user_id = 1, total_scored = 0,
         total_questions = 2, answers = None\<rparr>"]
  by simp

section \<open>Availability\<close>

text \<open>
  Claim C7. For a user and a quiz of the store, the handler answers \<^verbatim>\<open>NotAvailable\<close>
  exactly when the quiz's date is strictly after today: a quiz dated tomorrow is refused,
  a quiz dated today or earlier passes this check.
\<close>

theorem not_available_iff_future:
  "quiz_get qid s = Some quiz \<Longrightarrow>
   (\<exists>s'. attempt_quiz today uid qid req s = Inr (NotAvailable, s')) \<longleftrightarrow> today < date_of_quiz quiz"
  by (auto simp: attempt_quiz_def attempt_quiz_prepare_def add_commit_def Let_def
      split: option.splits sum.splits prod.splits if_splits)

theorem not_available_iff_future_witness:
  "quiz_get 1 store_new = Some quiz_a
   \<and> date_of_quiz quiz_a = 10
   \<and> (\<exists>s'. attempt_quiz 9 1 1 post_1_2 store_new = Inr (NotAvailable, s'))
   \<and> \<not> (\<exists>s'. attempt_quiz 10 1 1 post_1_2 store_new = Inr (NotAvailable, s'))"
  using not_available_iff_future [of 1 store_new quiz_a 9 1 post_1_2]
    not_available_iff_future [of 1 store_new quiz_a 10 1 post_1_2]
  by (simp add: quiz_get_store_new quiz_a_def)

section \<open>A second attempt\<close>

text \<open>
  Claim C6 says that whenever a Score exists for a user and a quiz, a further attempt is
  answered \<^verbatim>\<open>AlreadyAttempted\<close> with the identifier of that Score. The handler tests the
  quiz's date before it looks for a Score (line 468 before line 473), so when the quiz
  has since been dated into the future the answer is \<^verbatim>\<open>NotAvailable\<close>: here the quiz
  is dated day 10, today is day 9, and user 1 has a Score for it.
\<close>

theorem second_attempt_counterexample:
  "score_first 1 1 store_taken = Some score_a
   \<and> attempt_quiz 9 1 1 post_1_2 store_taken = Inr (NotAvailable, store_taken)"
  by (simp add: score_first_store_taken attempt_quiz_def attempt_quiz_prepare_def
      quiz_get_store_taken quiz_a_def)

text \<open>
  Claim C6, amended. When a Score exists for the user and the quiz, and the quiz is in the
  store and not dated after today, the attempt is answered \<^verbatim>\<open>AlreadyAttempted\<close> with the
  identifier of the existing Score and the store is left as it was. Whatever the handler
  answers while that Score exists, it leaves the store as it was: no Score is added or
  changed.
\<close>

theorem second_attempt:
  "score_first qid uid s = Some existing \<Longrightarrow>
   (quiz_get qid s = Some quiz \<longrightarrow> date_of_quiz quiz \<le> today \<longrightarrow>
      attempt_quiz today uid qid req s = Inr (AlreadyAttempted (score_id existing), s))
   \<and> (attempt_quiz today uid qid req s = Inr (resp, s') \<longrightarrow> s' = s)"
  by (auto simp: attempt_quiz_def attempt_quiz_prepare_def Let_def
      split: option.splits sum.splits prod.splits if_splits)

theorem second_attempt_witness:
  "score_first 1 1 store_taken = Some score_a
   \<and> quiz_get 1 store_taken = Some quiz_a
   \<and> date_of_quiz quiz_a \<le> 10
   \<and> score_id score_a = Some 1
   \<and> attempt_quiz 10 1 1 post_1_2 store_taken = Inr (AlreadyAttempted (Some 1), store_taken)"
  using second_attempt [of 1 1 store_taken score_a quiz_a 10 post_1_2]
  by (simp add: score_first_store_taken quiz_get_store_taken quiz_a_def score_a_def
      set_answers_def)

section \<open>Grading an answer that is not a numeral\<close>

text \<open>
  Claim C2 asks that a missing, null or invalid submitted option be scored as incorrect
  and never make the submission fail. A missing or empty value is indeed skipped, and a
  numeral is compared as an integer; but a non-empty value that is not a numeral reaches
  \<^verbatim>\<open>int\<close> (line 495), which raises \<^verbatim>\<open>ValueError\<close>, and the handler does not catch
  it: no Score is stored. Here the form gives \<^verbatim>\<open>abc\<close> for question 1.
\<close>

theorem invalid_option_raises:
  "attempt_quiz 10 1 1 post_abc store_new = Inl ValueError"
  by (simp add: attempt_quiz_def attempt_quiz_prepare_def quiz_get_store_new
      score_first_store_new questions_of_store_new validate_on_submit_def post_abc_def
      grade_form_abc quiz_a_def del: grade.simps)

section \<open>The Score that a submission stores\<close>

text \<open>
  Claim C9. When the handler answers \<^verbatim>\<open>Submitted\<close>, it has appended one Score to the
  store, for this user and quiz; its \<^verbatim>\<open>total_scored\<close> lies between 0 and its
  \<^verbatim>\<open>total_questions\<close>, which is the number of the quiz's questions at that time; and
  its stored answer map has one entry for each question of the quiz, in their order,
  whose key is \<^verbatim>\<open>str(question.id)\<close> and whose value is what the form gave for that
  question. Question identifiers are a primary key, hence distinct.
\<close>

theorem submitted_score:
  assumes "attempt_quiz today uid qid req s = Inr (Submitted i, s')"
    and "distinct (map question_id (questions s))"
  shows "scores s' = scores s @ [last (scores s')]
     \<and> score_id (last (scores s')) = i
     \<and> score_quiz_id (last (scores s')) = qid
     \<and> score_user_id (last (scores s')) = uid
     \<and> 0 \<le> total_scored (last (scores s'))
     \<and> total_scored (last (scores s')) \<le> total_questions (last (scores s'))
     \<and> total_questions (last (scores s')) = int (length (questions_of qid s))
     \<and> get_answers (last (scores s')) =
           Some (map (answer_entry (req_form req)) (questions_of qid s))"
proof -
  from attempt_quiz_Submitted [OF assms(1)] obtain scored ua where
    g: "grade (req_form req) (questions_of qid s) 0 [] = Inr (scored, ua)" and
    i: "i = Some (fresh_id s)" and
    s': "s' = s\<lparr>scores := scores s @
           [\<lparr>score_id = Some (fresh_id s), score_quiz_id = qid, score_user_id = uid,
              total_scored = scored, total_questions = int (length (questions_of qid s)),
              answers = Some (json_dumps ua)\<rparr>]\<rparr>"
    by blast
  have d: "distinct (map question_id (questions_of qid s))"
    using assms(2) by (simp add: questions_of_def distinct_map_filter)
  have ua: "ua = map (answer_entry (req_form req)) (questions_of qid s)"
    by (rule grade_answers [OF g d])
  have k: "distinct (map fst ua)"
    unfolding ua by (rule answer_entries_distinct [OF d])
  have bounds: "0 \<le> scored \<and> scored \<le> int (length (questions_of qid s))"
    using grade_result [OF g] by simp
  have dec: "json_loads (json_dumps ua) = Some ua"
    by (rule loads_dumps [OF k])
  have ne: "json_dumps ua \<noteq> []"
    by (simp add: json_dumps_def)
  show ?thesis
    using bounds dec ne by (simp add: s' i get_answers_def ua)
qed

theorem submitted_score_witness:
  "attempt_quiz 10 1 1 post_1_2 store_new = Inr (Submitted (Some 1), store_taken)
   \<and> distinct (map question_id (questions store_new))
   \<and> total_scored (last (scores store_taken)) = 1
   \<and> total_questions (last (scores store_taken)) = 2
   \<and> get_answers (last (scores store_taken)) = Some [(''1'', Some ''1''), (''2'', Some ''2'')]"
proof -
  have d: "distinct (map question_id (questions store_new))"
    by (simp add: store_new_def question_a_def question_b_def)
  have e: "map (answer_entry (req_form post_1_2)) (questions_of 1 store_new)
      = [(''1'', Some ''1''), (''2'', Some ''2'')]"
    by (simp add: questions_of_store_new answer_entry_def question_a_def question_b_def
        py_str_1 py_str_2 post_1_2_def form_1_2_def)
  have t: "total_scored (last (scores store_taken)) = 1"
    by (simp add: store_taken_def score_a_def set_answers_def)
  show ?thesis
    using submitted_score [OF attempt_post_1_2 d] attempt_post_1_2 d e t
    by (simp add: questions_of_store_new)
qed

section \<open>At most one Score for a user and a quiz\<close>

definition call_a :: attempt_call where
  "call_a = \<lparr>call_today = 10, call_user = 1, call_quiz = 1, call_request = post_1_2\<rparr>"

definition store_twice :: db where
  "store_twice = store_new\<lparr>scores := [score_a, score_a\<lparr>score_id := Some 2\<rparr>]\<rparr>"

lemma handle_call_a: "handle call_a store_new = Inr (Submitted (Some 1), store_taken)"
  by (simp add: handle_def call_a_def attempt_post_1_2)

lemma prepare_call_a:
  "attempt_quiz_prepare 10 1 1 post_1_2 store_new = Inr (Inr (score_a\<lparr>score_id := None\<rparr>))"
  by (simp add: attempt_quiz_prepare_def quiz_get_store_new score_first_store_new
      questions_of_store_new validate_on_submit_def post_1_2_def grade_form_1_2 quiz_a_def
      score_a_def set_answers_def del: grade.simps)

text \<open>
  Claim C1 says that at most one Score exists for a user and a quiz after any submissions,
  two concurrent ones included: one succeeds, the other fails with
  \<^verbatim>\<open>AlreadyAttempted\<close>. Two handlers for the same user and quiz that both look for an
  existing Score before either commits both find none, both commit, and both answer
  \<^verbatim>\<open>Submitted\<close>: the store then holds two Scores for the pair.
\<close>

theorem concurrent_submissions_counterexample:
  "run_schedule [0, 1, 0, 1] ([(call_a, Ready), (call_a, Ready)], store_new) =
     ([(call_a, Finished (Inr (Submitted (Some 1)))),
       (call_a, Finished (Inr (Submitted (Some 2))))], store_twice)
   \<and> \<not> one_score_per_pair store_twice"
proof -
  have 1: "handler_step (call_a, Ready) store_new =
      ((call_a, Prepared (score_a\<lparr>score_id := None\<rparr>)), store_new)"
    by (simp add: handler_step_def call_a_def prepare_call_a)
  have 2: "handler_step (call_a, Prepared (score_a\<lparr>score_id := None\<rparr>)) store_new =
      ((call_a, Finished (Inr (Submitted (Some 1)))), store_taken)"
    by (simp add: handler_step_def add_commit_def fresh_id_store_new Let_def store_taken_def
        score_a_def set_answers_def)
      (simp add: store_new_def)
  have 3: "handler_step (call_a, Prepared (score_a\<lparr>score_id := None\<rparr>)) store_taken =
      ((call_a, Finished (Inr (Submitted (Some 2)))), store_twice)"
    by (simp add: handler_step_def add_commit_def fresh_id_def Let_def store_taken_def
        store_twice_def store_new_def score_a_def set_answers_def)
  have "\<not> one_score_per_pair store_twice"
    by (simp add: one_score_per_pair_def store_twice_def store_new_def score_a_def
        set_answers_def)
  then show ?thesis
    by (simp add: 1 2 3)
qed

text \<open>
  Claim C1, amended. When the submissions are handled one after another, a store with at
  most one Score for each user and quiz still has at most one for each after any sequence
  of them; and once a submission has succeeded, every submission for the same user and
  quiz that is handled later (on the same or a later day) fails with
  \<^verbatim>\<open>AlreadyAttempted\<close>, with the identifier of that Score, and adds nothing.
\<close>

theorem sequential_submissions:
  "one_score_per_pair s \<Longrightarrow>
   one_score_per_pair (run_attempts cs s)
   \<and> (handle c s = Inr (Submitted i, s') \<longrightarrow>
        call_user c' = call_user c \<longrightarrow> call_quiz c' = call_quiz c \<longrightarrow>
        call_today c \<le> call_today c' \<longrightarrow>
        handle c' (run_attempts cs s') = Inr (AlreadyAttempted i, run_attempts cs s'))"
proof (intro conjI impI)
  assume "one_score_per_pair s"
  then show "one_score_per_pair (run_attempts cs s)"
    by (rule run_attempts_invariant)
next
  assume sub: "handle c s = Inr (Submitted i, s')"
    and same: "call_user c' = call_user c" "call_quiz c' = call_quiz c"
    and day: "call_today c \<le> call_today c'"
  from handle_Submitted [OF sub] obtain sc quiz where
    sc: "score_first (call_quiz c) (call_user c) s' = Some sc" "score_id sc = i" and
    quiz: "quiz_get (call_quiz c) s' = Some quiz" "date_of_quiz quiz \<le> call_today c"
    by blast
  have "score_first (call_quiz c') (call_user c') (run_attempts cs s') = Some sc"
    using score_first_kept [OF sc(1)] same by simp
  moreover have "quiz_get (call_quiz c') (run_attempts cs s') = Some quiz"
    using quiz(1) same by (simp add: quiz_get_kept)
  moreover have "date_of_quiz quiz \<le> call_today c'"
    using quiz(2) day by simp
  ultimately show "handle c' (run_attempts cs s') = Inr (AlreadyAttempted i, run_attempts cs s')"
    using handle_existing sc(2) by blast
qed

theorem sequential_submissions_witness:
  "one_score_per_pair store_new
   \<and> handle call_a store_new = Inr (Submitted (Some 1), store_taken)
   \<and> one_score_per_pair (run_attempts [call_a, call_a] store_new)
   \<and> handle call_a (run_attempts [call_a] store_taken) =
        Inr (AlreadyAttempted (Some 1), run_attempts [call_a] store_taken)"
proof -
  have inv: "one_score_per_pair store_new"
    by (simp add: one_score_per_pair_def store_new_def)
  show ?thesis
    using sequential_submissions [OF inv, of "[call_a, call_a]" call_a "Some 1" store_taken call_a]
      sequential_submissions [OF inv, of "[call_a]" call_a "Some 1" store_taken call_a]
      inv handle_call_a
    by simp
qed

section \<open>The percentage of a Score\<close>

definition score_1_of_2 :: score where
  "score_1_of_2 = \<lparr>score_id = Some 1, score_quiz_id = 1, score_user_id = 1, total_scored = 1,
     total_questions = 2, answers = None\<rparr>"

definition score_0_of_0 :: score where
  "score_0_of_0 = \<lparr>score_id = Some 2, score_quiz_id = 2, score_user_id = 1, total_scored = 0,
     total_questions = 0, answers = None\<rparr>"

lemma half_as_percentage: "py_round (py_mul (to_float (1 / 2)) 100) 2 = 50"
  by code_simp

text \<open>
  Claim C3. \<^verbatim>\<open>percentage\<close> returns 0 when \<^verbatim>\<open>total_questions\<close> is 0, and then performs
  no division; otherwise it returns \<^verbatim>\<open>round(total_scored / total_questions * 100, 2)\<close>.
  In neither case does it raise \<^verbatim>\<open>ZeroDivisionError\<close>.
\<close>

theorem percentage_guarded:
  "(total_questions sc = 0 \<longrightarrow> percentage sc = Inr 0)
   \<and> (total_questions sc \<noteq> 0 \<longrightarrow>
        percentage sc =
          Inr (py_round
            (py_mul (to_float (of_int (total_scored sc) / of_int (total_questions sc))) 100) 2))"
  by (simp add: percentage_def percentage_ratio_def py_truediv_def)

theorem percentage_guarded_witness:
  "total_questions score_0_of_0 = 0 \<and> percentage score_0_of_0 = Inr 0
   \<and> total_questions score_1_of_2 \<noteq> 0 \<and> percentage score_1_of_2 = Inr 50"
  using percentage_guarded [of score_0_of_0] percentage_guarded [of score_1_of_2]
  by (simp add: score_0_of_0_def score_1_of_2_def half_as_percentage)

section \<open>How percentages are rounded\<close>

definition score_1_of_32 :: score where
  "score_1_of_32 = \<lparr>score_id = Some 3, score_quiz_id = 3, score_user_id = 1, total_scored = 1,
     total_questions = 32, answers = None\<rparr>"

text \<open>Rounding half up to two decimals, in the words of claim C4.\<close>

definition round_half_up_2 :: "rat \<Rightarrow> rat" where
  "round_half_up_2 x = of_int \<lfloor>x * 100 + 1 / 2\<rfloor> / 100"

lemma one_of_32_ratio: "py_mul (to_float (1 / 32)) 100 = 25 / 8"
  by code_simp

lemma one_of_32_rounded: "py_round (25 / 8) 2 = to_float (312 / 100)"
  by code_simp

lemma one_of_32_half_up: "round_half_up_2 (25 / 8) = 313 / 100"
  by code_simp

lemma float_312_not_313:
  "to_float (312 / 100) \<noteq> 313 / 100" "to_float (312 / 100) \<noteq> to_float (313 / 100)"
  by code_simp+

lemma percentage_ratio_1_of_32: "percentage_ratio score_1_of_32 = Inr (25 / 8)"
  by (simp add: percentage_ratio_def py_truediv_def score_1_of_32_def one_of_32_ratio)

lemma percentage_1_of_32: "percentage score_1_of_32 = Inr (to_float (312 / 100))"
  by (simp add: percentage_def percentage_ratio_1_of_32 one_of_32_rounded)
    (simp add: score_1_of_32_def)

text \<open>
  Claim C4 says that every percentage is rounded half up to two decimals. For a Score of
  1 out of 32 the ratio is the float 3.125 exactly, which half up makes 3.13;
  \<^verbatim>\<open>percentage\<close> returns the float nearest to 3.12, because Python's \<^verbatim>\<open>round\<close> sends
  an exact tie to the even digit.
\<close>

theorem half_up_counterexample:
  "percentage_ratio score_1_of_32 = Inr (25 / 8)
   \<and> round_half_up_2 (25 / 8) = 313 / 100
   \<and> percentage score_1_of_32 = Inr (to_float (312 / 100))
   \<and> to_float (312 / 100) \<noteq> 313 / 100
   \<and> to_float (312 / 100) \<noteq> to_float (313 / 100)"
  by (intro conjI percentage_ratio_1_of_32 one_of_32_half_up percentage_1_of_32
      float_312_not_313)

text \<open>
  Claim C4, amended. Every percentage that \<^verbatim>\<open>percentage\<close> and the statistics return is
  either the 0 of a guard or \<^verbatim>\<open>round(x, 2)\<close> of the float \<open>x\<close> computed for it: the
  float of \<open>n / 100\<close> for the integer \<open>n\<close> nearest to \<open>100 x\<close>, the even one when
  two are equally near. This holds for the percentage of a Score (\<open>x\<close> the ratio times
  100), the average of a quiz on the dashboard and the average of a user (\<open>x\<close> the
  average of the percentages), the completion rate (\<open>x\<close> the ratio times 100), and the
  average of each subject (\<open>x\<close> the subject's total divided by its count).
\<close>

theorem percentages_rounded_half_even:
  "(total_questions sc \<noteq> 0 \<longrightarrow>
      (\<exists>x v. percentage_ratio sc = Inr x \<and> percentage sc = Inr v
         \<and> nearest_hundredth_even x v))
   \<and> (\<exists>avg st. average_percentage builtin_sum (scores_of_quiz s quiz) = Inr avg
         \<and> quiz_stat_of builtin_sum s quiz = Inr st \<and> nearest_hundredth_even avg (avg_score st))
   \<and> (dashboard_quiz_stats builtin_sum s = Inr sts \<longrightarrow>
        (\<forall>e \<in> set sts. quiz_stat_of builtin_sum s (stat_quiz e) = Inr e))
   \<and> (get_user_stats builtin_sum user_id s = Inr us \<longrightarrow>
        (\<exists>avg. average_percentage builtin_sum (scores_of_user s user_id) = Inr avg
           \<and> nearest_hundredth_even avg (avg_percentage us))
        \<and> (if quizzes s = [] then completion_rate us = 0
            else \<exists>x. completion_ratio (length (scores_of_user s user_id)) (length (quizzes s))
                    = Inr x \<and> nearest_hundredth_even x (completion_rate us))
        \<and> (\<exists>data. collect_subject_scores s (scores_of_user s user_id) [] = Inr data
             \<and> (\<forall>(name, v) \<in> set (subject_avg us).
                   \<exists>d. (name, d) \<in> set data
                     \<and> (if data_count d > 0
                         then nearest_hundredth_even
                                (to_float (data_total d / of_nat (data_count d))) v
                         else v = 0))))"
proof (intro conjI impI)
  assume "total_questions sc \<noteq> 0"
  then show "\<exists>x v. percentage_ratio sc = Inr x \<and> percentage sc = Inr v
      \<and> nearest_hundredth_even x v"
    by (simp add: percentage_def percentage_ratio_value py_round_2)
next
  show "\<exists>avg st. average_percentage builtin_sum (scores_of_quiz s quiz) = Inr avg
      \<and> quiz_stat_of builtin_sum s quiz = Inr st \<and> nearest_hundredth_even avg (avg_score st)"
    by (simp add: quiz_stat_of_def average_percentage_Inr Let_def py_round_2)
next
  assume "dashboard_quiz_stats builtin_sum s = Inr sts"
  then have sts: "sts = take 5 (sort_reverse attempts (map (expected_stat builtin_sum s) (quizzes s)))"
    by (simp add: dashboard_quiz_stats_Inr)
  show "\<forall>e \<in> set sts. quiz_stat_of builtin_sum s (stat_quiz e) = Inr e"
  proof
    fix e
    assume "e \<in> set sts"
    then have "e \<in> set (map (expected_stat builtin_sum s) (quizzes s))"
      unfolding sts
      using set_take_subset [of 5 "sort_reverse attempts (map (expected_stat builtin_sum s) (quizzes s))"]
      by auto
    then obtain quiz where "e = expected_stat builtin_sum s quiz"
      by auto
    then show "quiz_stat_of builtin_sum s (stat_quiz e) = Inr e"
      by (simp add: quiz_stat_of_Inr) (simp add: expected_stat_def)
  qed
next
  assume us: "get_user_stats builtin_sum user_id s = Inr us"
  from get_user_stats_Inr [OF us] obtain avg data where
    avg: "average_percentage builtin_sum (scores_of_user s user_id) = Inr avg"
      "avg_percentage us = py_round avg 2" and
    data: "collect_subject_scores s (scores_of_user s user_id) [] = Inr data"
      "subject_averages data [] = Inr (subject_avg us)" and
    rate: "if quizzes s = [] then completion_rate us = 0
      else \<exists>x. completion_ratio (length (scores_of_user s user_id)) (length (quizzes s))
              = Inr x \<and> completion_rate us = py_round x 2"
    by blast
  show "\<exists>avg. average_percentage builtin_sum (scores_of_user s user_id) = Inr avg
      \<and> nearest_hundredth_even avg (avg_percentage us)"
    using avg by (simp add: py_round_2)
  show "if quizzes s = [] then completion_rate us = 0
      else \<exists>x. completion_ratio (length (scores_of_user s user_id)) (length (quizzes s))
              = Inr x \<and> nearest_hundredth_even x (completion_rate us)"
    using rate by (auto simp: py_round_2 split: if_splits)
  have src: "\<exists>d. (name, d) \<in> set data
      \<and> (if data_count d > 0
          then nearest_hundredth_even (to_float (data_total d / of_nat (data_count d))) v
          else v = 0)"
    if "(name, v) \<in> set (subject_avg us)" for name v
  proof -
    from subject_averages_source [OF data(2) that] obtain d where
      "(name, d) \<in> set data" "subject_average d = Inr v"
      by auto
    with subject_average_value [of d v] show ?thesis
      by blast
  qed
  show "\<exists>data. collect_subject_scores s (scores_of_user s user_id) [] = Inr data
      \<and> (\<forall>(name, v) \<in> set (subject_avg us).
            \<exists>d. (name, d) \<in> set data
              \<and> (if data_count d > 0
                  then nearest_hundredth_even
                         (to_float (data_total d / of_nat (data_count d))) v
                  else v = 0))"
  proof (intro exI [of _ data] conjI ballI)
    show "collect_subject_scores s (scores_of_user s user_id) [] = Inr data"
      by (rule data(1))
  next
    fix p
    assume p: "p \<in> set (subject_avg us)"
    obtain name v where pv: "p = (name, v)"
      by (cases p)
    from p pv have "(name, v) \<in> set (subject_avg us)"
      by simp
    from src [OF this] show "case p of (name, v) \<Rightarrow>
        \<exists>d. (name, d) \<in> set data
          \<and> (if data_count d > 0
              then nearest_hundredth_even
                     (to_float (data_total d / of_nat (data_count d))) v
              else v = 0)"
      unfolding pv prod.case .
  qed
qed

definition user_stats_a :: user_stats where
  "user_stats_a = \<lparr>avg_percentage = 50, completed_quizzes = 1, completion_rate = 100,
     subject_avg = [(''Algebra'', 50)]\<rparr>"

lemma float_facts:
  "py_round 50 2 = 50" "py_add 0 50 = 50" "to_float 50 = 50"
  "py_mul (to_float 1) 100 = 100" "py_round 100 2 = 100"
  by code_simp+

lemma sum_of_fifty: "sum_plain [50] = 50" "sum_compensated [50] = 50"
  by code_simp+

lemma percentage_score_a: "percentage score_a = Inr 50"
  by (simp add: percentage_Inr percentage_value_def score_a_def set_answers_def
      half_as_percentage)

lemma percentage_value_score_a: "percentage_value score_a = 50"
  by (simp add: percentage_value_def score_a_def set_answers_def half_as_percentage)

lemma average_percentage_score_a:
  "builtin_sum [50] = 50 \<Longrightarrow> average_percentage builtin_sum [score_a] = Inr 50"
  by (simp add: average_percentage_Inr float_mean_def percentage_value_score_a float_facts)

lemma subject_name_of_score_a: "subject_name_of store_taken score_a = Inr ''Algebra''"
  by (simp add: subject_name_of_def quiz_get_def chapter_get_def subject_get_def
      store_taken_def store_new_def score_a_def set_answers_def quiz_a_def)

lemma get_user_stats_store_taken:
  assumes "builtin_sum [50] = 50"
  shows "get_user_stats builtin_sum 1 store_taken = Inr user_stats_a"
proof -
  have u: "filter (\<lambda>sc. score_user_id sc = 1) (scores store_taken) = [score_a]"
    by (simp add: store_taken_def score_a_def set_answers_def)
  have q: "quizzes store_taken = [quiz_a]"
    by (simp add: store_taken_def store_new_def)
  have a: "average_percentage builtin_sum [score_a] = Inr 50"
    by (rule average_percentage_score_a [of builtin_sum, OF assms])
  have c: "collect_subject_scores store_taken [score_a] [] =
      Inr [(''Algebra'', \<lparr>data_scores = [50], data_total = 50, data_count = 1\<rparr>)]"
    by (simp add: subject_name_of_score_a percentage_score_a add_to_subject_def float_facts)
  have v: "subject_averages
      [(''Algebra'', \<lparr>data_scores = [50], data_total = 50, data_count = Suc 0\<rparr>)] [] =
      Inr [(''Algebra'', 50)]"
    by (simp add: subject_average_def py_truediv_def float_facts)
  have r: "completion_ratio (Suc 0) (Suc 0) = Inr 100"
    by (simp add: completion_ratio_def py_truediv_def float_facts)
  show ?thesis
    by (simp add: get_user_stats_def u q a c v r float_facts user_stats_a_def
        del: collect_subject_scores.simps subject_averages.simps)
qed

theorem percentages_rounded_half_even_witness:
  "total_questions score_1_of_32 \<noteq> 0
   \<and> percentage score_1_of_32 = Inr (to_float (312 / 100))
   \<and> nearest_hundredth_even (25 / 8) (to_float (312 / 100))
   \<and> get_user_stats sum_plain 1 store_taken = Inr user_stats_a
   \<and> get_user_stats sum_compensated 1 store_taken = Inr user_stats_a
   \<and> nearest_hundredth_even 50 (avg_percentage user_stats_a)
   \<and> nearest_hundredth_even 100 (completion_rate user_stats_a)"
proof -
  note inst = percentages_rounded_half_even
    [of score_1_of_32 sum_compensated store_taken quiz_a "[]" 1 user_stats_a]
  have n: "total_questions score_1_of_32 \<noteq> 0"
    by (simp add: score_1_of_32_def)
  from inst n obtain x v where
    "percentage_ratio score_1_of_32 = Inr x" "percentage score_1_of_32 = Inr v"
    "nearest_hundredth_even x v"
    by blast
  then have 1: "nearest_hundredth_even (25 / 8) (to_float (312 / 100))"
    by (metis percentage_ratio_1_of_32 percentage_1_of_32 sum.inject(2))
  have u: "scores_of_user store_taken 1 = [score_a]"
    by (simp add: scores_of_user_def store_taken_def score_a_def set_answers_def)
  have q: "quizzes store_taken = [quiz_a]"
    by (simp add: store_taken_def store_new_def)
  have a: "average_percentage sum_compensated [score_a] = Inr 50"
    by (rule average_percentage_score_a [of sum_compensated, OF sum_of_fifty(2)])
  have r: "completion_ratio (Suc 0) (Suc 0) = Inr 100"
    by (simp add: completion_ratio_def py_truediv_def float_facts)
  have gp: "get_user_stats sum_plain 1 store_taken = Inr user_stats_a"
    by (rule get_user_stats_store_taken [of sum_plain, OF sum_of_fifty(1)])
  have gc: "get_user_stats sum_compensated 1 store_taken = Inr user_stats_a"
    by (rule get_user_stats_store_taken [of sum_compensated, OF sum_of_fifty(2)])
  from inst gc have
    "\<exists>avg. average_percentage sum_compensated (scores_of_user store_taken 1) = Inr avg
       \<and> nearest_hundredth_even avg (avg_percentage user_stats_a)"
    "if quizzes store_taken = [] then completion_rate user_stats_a = 0
     else \<exists>x. completion_ratio (length (scores_of_user store_taken 1))
                 (length (quizzes store_taken)) = Inr x
            \<and> nearest_hundredth_even x (completion_rate user_stats_a)"
    by blast+
  then have 2: "nearest_hundredth_even 50 (avg_percentage user_stats_a)"
    and 3: "nearest_hundredth_even 100 (completion_rate user_stats_a)"
    by (simp_all add: u q a r)
  from n percentage_1_of_32 1 gp gc 2 3 show ?thesis
    by blast
qed

section \<open>The ranking of quizzes on the admin dashboard\<close>







text \<open>
  The two sums can give different averages. For four Scores of 2, 2, 2 and 1 out of 3
  the percentages are 66.67, 66.67, 66.67 and 33.33; the plain sum gives the average
  58.33, the compensated sum 58.34.
\<close>

lemma averages_differ:
  "py_round (float_mean sum_plain
      [to_float (6667 / 100), to_float (6667 / 100), to_float (6667 / 100),
       to_float (3333 / 100)]) 2 = to_float (5833 / 100)"
  "py_round (float_mean sum_compensated
      [to_float (6667 / 100), to_float (6667 / 100), to_float (6667 / 100),
       to_float (3333 / 100)]) 2 = to_float (5834 / 100)"
  by code_simp+



end
